theory Spec2Isabelle
  imports Complex_Main "HOL-Library.Multiset"
begin

section \<open>Data model\<close>

text \<open>
  The weather backend keeps one table, \<open>weather_data\<close>, and three service functions
  work on it: \<open>process_and_store_weather_data\<close> (the upsert, "reconcile" in the
  specification), \<open>get_recent_weather_data\<close> and \<open>get_weather_data_by_location\<close>.

  Modelling decisions, all of them visible in the definitions below:
  \<^item> A \<open>datetime\<close> is an integer number of microseconds; \<open>timedelta(hours=h)\<close> is
    \<open>h * 3600000000\<close>.
  \<^item> A Python \<open>float\<close> is a \<open>real\<close>: the values are the finite ones, and equality of
    coordinates is equality of the numbers. NaN, which is not equal to itself, is outside
    the model.
  \<^item> A row object is identified with its position in the table: the position is the
    reference the ORM hands out, so that a row updated twice is one object, exactly as
    \<open>weather_records\<close> holds the same instance twice in the source.
  \<^item> The primary key is given by the database on insertion, one more than the largest
    key of the table (the rule of an SQLite integer primary key).
\<close>

type_synonym datetime = int

record WeatherData =
  id' :: nat
  timestamp :: datetime
  latitude :: real
  longitude :: real
  temperature_2m :: real
  relative_humidity_2m :: real
  created_at :: datetime

text \<open>
  The archive's answer, as far as the service reads it: a dictionary that may hold the
  key \<open>hourly\<close>, itself a dictionary that may hold the three arrays. An absent key is
  \<open>None\<close>; a \<open>null\<close> entry of a numeric array is \<open>None\<close> inside the list.
\<close>

record hourly_data =
  h_time :: "string list option"
  h_temperature_2m :: "real option list option"
  h_relative_humidity_2m :: "real option list option"

record api_response =
  hourly :: "hourly_data option"

datatype error = RequestException | ValueError | KeyError | IndexError | StorageError

text \<open>
  Modelled from the spec: the shared persistence handle \<open>db\<close> of \<open>src/models/user.py\<close>,
  which is not among the sources. It is taken to be a default session: a lookup sees the
  writes made earlier in the same unit of work, \<open>commit\<close> makes the unit of work
  persistent, \<open>rollback\<close> discards it. The state keeps the persisted table and the table
  as the open session sees it.
\<close>

record state =
  persisted :: "WeatherData list"
  session :: "WeatherData list"

section \<open>The weather service\<close>

subsection \<open>Archive client\<close>

record request_params =
  p_latitude :: real
  p_longitude :: real
  p_start_date :: int
  p_end_date :: int

text \<open>
  \<open>requests_get\<close> stands for the outbound call together with \<open>raise_for_status\<close> and
  \<open>json()\<close>: \<open>None\<close> when any of them raises a \<open>RequestException\<close>, the decoded
  body otherwise. Dates are day numbers.
\<close>

definition fetch_weather_data ::
  "(request_params \<Rightarrow> api_response option) \<Rightarrow> int \<Rightarrow> real \<Rightarrow> real \<Rightarrow> int \<Rightarrow> error + api_response" where
  "fetch_weather_data requests_get today lat lon days =
    (let end_date = today - 1;
         start_date = end_date - (days - 1);
         params = \<lparr>p_latitude = lat, p_longitude = lon,
                   p_start_date = start_date, p_end_date = end_date\<rparr>
     in case requests_get params of
          None \<Rightarrow> Inl RequestException
        | Some data \<Rightarrow>
            (case hourly data of
               None \<Rightarrow> Inl ValueError
             | Some hourly_data \<Rightarrow>
                 if h_time hourly_data = None then Inl ValueError
                 else if h_temperature_2m hourly_data = None then Inl ValueError
                 else if h_relative_humidity_2m hourly_data = None then Inl ValueError
                 else Inr data))"

subsection \<open>Upsert store\<close>

definition filter_by :: "datetime \<Rightarrow> real \<Rightarrow> real \<Rightarrow> WeatherData \<Rightarrow> bool" where
  "filter_by ts lat lon r = (timestamp r = ts \<and> latitude r = lat \<and> longitude r = lon)"

text \<open>\<open>query.first()\<close>: the reference of the first matching row, if there is one.\<close>

fun first_ref :: "('a \<Rightarrow> bool) \<Rightarrow> 'a list \<Rightarrow> nat option" where
  "first_ref P [] = None"
| "first_ref P (x # xs) = (if P x then Some 0 else map_option Suc (first_ref P xs))"

definition next_id :: "WeatherData list \<Rightarrow> nat" where
  "next_id rows = Suc (fold max (map id' rows) 0)"

definition replace_T :: "string \<Rightarrow> string" where
  "replace_T s = map (\<lambda>c. if c = CHR ''T'' then CHR '' '' else c) s"

text \<open>
  The body of the loop once the timestamp is parsed and both values are present: look
  the triple up, update the row found or append a new one. It returns the table and the
  reference of the row it touched.
\<close>

definition store_record ::
  "datetime \<Rightarrow> real \<Rightarrow> real \<Rightarrow> datetime \<Rightarrow> real \<Rightarrow> real \<Rightarrow> WeatherData list \<Rightarrow> WeatherData list \<times> nat" where
  "store_record utcnow lat lon ts temp hum rows =
    (case first_ref (filter_by ts lat lon) rows of
       Some p \<Rightarrow>
         (rows[p := (rows ! p)\<lparr>temperature_2m := temp, relative_humidity_2m := hum\<rparr>], p)
     | None \<Rightarrow>
         (rows @ [\<lparr>id' = next_id rows, timestamp = ts, latitude = lat, longitude = lon,
                   temperature_2m = temp, relative_humidity_2m = hum,
                   created_at = utcnow\<rparr>], length rows))"

text \<open>
  The loop \<open>for i, timestamp_str in enumerate(timestamps)\<close>. The checks come in the
  order of the source: the timestamp is parsed first (\<open>fromisoformat\<close> is a parameter,
  \<open>None\<close> where it raises \<open>ValueError\<close>), then \<open>temperatures[i]\<close> is read, and
  \<open>humidities[i]\<close> is read only when the temperature is not \<open>None\<close>, as \<open>or\<close>
  evaluates its second operand only then. An error leaves the rows written so far in the
  session.
\<close>

fun store_loop ::
  "(string \<Rightarrow> datetime option) \<Rightarrow> datetime \<Rightarrow> real \<Rightarrow> real \<Rightarrow> real option list \<Rightarrow> real option list \<Rightarrow>
   nat \<Rightarrow> string list \<Rightarrow> WeatherData list \<Rightarrow> nat list \<Rightarrow> (error + nat list) \<times> WeatherData list" where
  "store_loop fromisoformat utcnow lat lon temperatures humidities i [] rows weather_records =
     (Inr weather_records, rows)"
| "store_loop fromisoformat utcnow lat lon temperatures humidities i (timestamp_str # rest) rows weather_records =
     (case fromisoformat (replace_T timestamp_str) of
        None \<Rightarrow> (Inl ValueError, rows)
      | Some ts \<Rightarrow>
          if length temperatures \<le> i then (Inl IndexError, rows)
          else (case temperatures ! i of
             None \<Rightarrow> store_loop fromisoformat utcnow lat lon temperatures humidities (Suc i) rest rows weather_records
           | Some temp \<Rightarrow>
               if length humidities \<le> i then (Inl IndexError, rows)
               else (case humidities ! i of
                  None \<Rightarrow> store_loop fromisoformat utcnow lat lon temperatures humidities (Suc i) rest rows weather_records
                | Some hum \<Rightarrow>
                    (case store_record utcnow lat lon ts temp hum rows of
                       (rows', p) \<Rightarrow>
                         store_loop fromisoformat utcnow lat lon temperatures humidities (Suc i) rest rows'
                           (weather_records @ [p])))))"

text \<open>
  \<open>commit_ok\<close> is the outcome of \<open>db.session.commit()\<close>. Only the commit stands
  inside the \<open>try\<close>: an error of the loop leaves the function as it is, with no
  rollback.
\<close>

definition process_and_store_weather_data ::
  "(string \<Rightarrow> datetime option) \<Rightarrow> datetime \<Rightarrow> bool \<Rightarrow> api_response \<Rightarrow> real \<Rightarrow> real \<Rightarrow> state \<Rightarrow>
   (error + WeatherData list) \<times> state" where
  "process_and_store_weather_data fromisoformat utcnow commit_ok api_data lat lon st =
    (case hourly api_data of
       None \<Rightarrow> (Inl KeyError, st)
     | Some hourly_data \<Rightarrow>
    (case h_time hourly_data of
       None \<Rightarrow> (Inl KeyError, st)
     | Some timestamps \<Rightarrow>
    (case h_temperature_2m hourly_data of
       None \<Rightarrow> (Inl KeyError, st)
     | Some temperatures \<Rightarrow>
    (case h_relative_humidity_2m hourly_data of
       None \<Rightarrow> (Inl KeyError, st)
     | Some humidities \<Rightarrow>
    (case store_loop fromisoformat utcnow lat lon temperatures humidities 0 timestamps (session st) [] of
       (Inl e, rows) \<Rightarrow> (Inl e, st\<lparr>session := rows\<rparr>)
     | (Inr weather_records, rows) \<Rightarrow>
         if commit_ok
         then (Inr (map (\<lambda>p. rows ! p) weather_records), \<lparr>persisted = rows, session = rows\<rparr>)
         else (Inl StorageError, st\<lparr>session := persisted st\<rparr>))))))"

subsection \<open>Query layer\<close>

definition timedelta_hours :: "int \<Rightarrow> int" where
  "timedelta_hours hours = hours * 3600000000"

text \<open>
  Both queries read the table as the session sees it and leave the state alone;
  \<open>order_by(timestamp.asc())\<close> is a stable sort on the timestamp.
\<close>

definition get_recent_weather_data :: "datetime \<Rightarrow> int \<Rightarrow> state \<Rightarrow> WeatherData list \<times> state" where
  "get_recent_weather_data utcnow hours st =
    (let cutoff_time = utcnow - timedelta_hours hours
     in (sort_key timestamp (filter (\<lambda>r. timestamp r \<ge> cutoff_time) (session st)), st))"

definition get_weather_data_by_location ::
  "datetime \<Rightarrow> real \<Rightarrow> real \<Rightarrow> int \<Rightarrow> state \<Rightarrow> WeatherData list \<times> state" where
  "get_weather_data_by_location utcnow lat lon hours st =
    (let cutoff_time = utcnow - timedelta_hours hours
     in (sort_key timestamp
           (filter (\<lambda>r. latitude r = lat \<and> longitude r = lon \<and> timestamp r \<ge> cutoff_time) (session st)),
         st))"

section \<open>The request handlers\<close>

text \<open>
  A handler is modelled by the \<open>return\<close> statement that answers the request: the
  status code and which of the handler's bodies is sent. The query arguments arrive
  parsed, as \<open>request.args.get(..., type=...)\<close> delivers them: \<open>None\<close> for an argument
  that is absent or does not parse, and \<open>hours\<close> falls back to 48 then. The reads of the
  table are taken to succeed.
\<close>

datatype renderer = WeasyPrint | ReportLab

datatype body =
    Invalid_hours_parameter
  | Invalid_coordinates
  | No_data_found
  | Records "WeatherData list"
  | Excel_file
  | Excel_export_failed
  | Pdf_file renderer
  | Both_renderers_failed
  | Pdf_export_failed

type_synonym response = "nat \<times> body"

definition get_weather_data ::
  "datetime \<Rightarrow> real option \<Rightarrow> real option \<Rightarrow> int option \<Rightarrow> state \<Rightarrow> response" where
  "get_weather_data utcnow lat lon hours_arg st =
    (let hours = (case hours_arg of None \<Rightarrow> 48 | Some h \<Rightarrow> h)
     in if hours \<le> 0 \<or> hours > 168 then (400, Invalid_hours_parameter)
        else (case lat of
           None \<Rightarrow> (200, Records (fst (get_recent_weather_data utcnow hours st)))
         | Some la \<Rightarrow>
          (case lon of
             None \<Rightarrow> (200, Records (fst (get_recent_weather_data utcnow hours st)))
           | Some lo \<Rightarrow>
               if \<not> (- 90 \<le> la \<and> la \<le> 90) \<or> \<not> (- 180 \<le> lo \<and> lo \<le> 180)
               then (400, Invalid_coordinates)
               else (200, Records (fst (get_weather_data_by_location utcnow la lo hours st))))))"

text \<open>
  \<open>workbook_ok\<close> is the outcome of building, saving and sending the workbook: where any
  of these raises, the handler's \<open>except\<close> answers 500.
\<close>

definition export_excel ::
  "bool \<Rightarrow> datetime \<Rightarrow> real option \<Rightarrow> real option \<Rightarrow> int option \<Rightarrow> state \<Rightarrow> response" where
  "export_excel workbook_ok utcnow lat lon hours_arg st =
    (let hours = (case hours_arg of None \<Rightarrow> 48 | Some h \<Rightarrow> h)
     in if hours \<le> 0 \<or> hours > 168 then (400, Invalid_hours_parameter)
        else (case (case lat of
                 None \<Rightarrow> Inr (fst (get_recent_weather_data utcnow hours st))
               | Some la \<Rightarrow>
                (case lon of
                   None \<Rightarrow> Inr (fst (get_recent_weather_data utcnow hours st))
                 | Some lo \<Rightarrow>
                     if \<not> (- 90 \<le> la \<and> la \<le> 90) \<or> \<not> (- 180 \<le> lo \<and> lo \<le> 180)
                     then Inl (400, Invalid_coordinates)
                     else Inr (fst (get_weather_data_by_location utcnow la lo hours st)))) of
           Inl resp \<Rightarrow> resp
         | Inr weather_data \<Rightarrow>
             if weather_data = [] then (404, No_data_found)
             else if workbook_ok then (200, Excel_file)
             else (500, Excel_export_failed)))"

text \<open>
  What the PDF handler meets outside its own code: whether \<open>weasyprint\<close> could be
  imported, and whether each library call returns or raises. \<open>generate_pdf_html\<close> only
  formats a non-empty record list and is taken to return.
\<close>

record pdf_env =
  weasyprint_available :: bool
  chart_ok :: bool
  tempfile_ok :: bool
  write_pdf_ok :: bool
  reportlab_ok :: bool
  send_file_ok :: bool

definition export_pdf ::
  "pdf_env \<Rightarrow> datetime \<Rightarrow> real option \<Rightarrow> real option \<Rightarrow> int option \<Rightarrow> state \<Rightarrow> response" where
  "export_pdf env utcnow lat lon hours_arg st =
    (let hours = (case hours_arg of None \<Rightarrow> 48 | Some h \<Rightarrow> h)
     in if hours \<le> 0 \<or> hours > 168 then (400, Invalid_hours_parameter)
        else (case (case lat of
                 None \<Rightarrow> Inr (fst (get_recent_weather_data utcnow hours st))
               | Some la \<Rightarrow>
                (case lon of
                   None \<Rightarrow> Inr (fst (get_recent_weather_data utcnow hours st))
                 | Some lo \<Rightarrow>
                     if \<not> (- 90 \<le> la \<and> la \<le> 90) \<or> \<not> (- 180 \<le> lo \<and> lo \<le> 180)
                     then Inl (400, Invalid_coordinates)
                     else Inr (fst (get_weather_data_by_location utcnow la lo hours st)))) of
           Inl resp \<Rightarrow> resp
         | Inr weather_data \<Rightarrow>
             if weather_data = [] then (404, No_data_found)
             else if \<not> chart_ok env then (500, Pdf_export_failed)
             else if \<not> tempfile_ok env then (500, Pdf_export_failed)
             else if weasyprint_available env \<and> write_pdf_ok env
               then (if send_file_ok env then (200, Pdf_file WeasyPrint) else (500, Pdf_export_failed))
             else if reportlab_ok env
               then (if send_file_ok env then (200, Pdf_file ReportLab) else (500, Pdf_export_failed))
             else (500, Both_renderers_failed)))"

section \<open>Auxiliary notions for the proofs\<close>

text \<open>The triple that identifies a record, and the invariant on a table.\<close>

definition keyof :: "WeatherData \<Rightarrow> datetime \<times> real \<times> real" where
  "keyof r = (timestamp r, latitude r, longitude r)"

definition unique_triples :: "WeatherData list \<Rightarrow> bool" where
  "unique_triples rows = distinct (map keyof rows)"

text \<open>
  The loop splits into what depends on the series alone and what depends on the table:
  \<open>series_entries\<close> lists the hours the loop stores, up to the first error, and
  \<open>store_all\<close> stores a list of such hours. Lemma \<open>store_loop_eq\<close> below shows that the
  loop is their composition.
\<close>

type_synonym entry = "datetime \<times> real \<times> real"

fun store_all ::
  "datetime \<Rightarrow> real \<Rightarrow> real \<Rightarrow> entry list \<Rightarrow> WeatherData list \<Rightarrow> WeatherData list \<times> nat list" where
  "store_all utcnow lat lon [] rows = (rows, [])"
| "store_all utcnow lat lon ((ts, temp, hum) # es) rows =
     (case store_record utcnow lat lon ts temp hum rows of
        (rows', p) \<Rightarrow>
          (case store_all utcnow lat lon es rows' of (rows'', ps) \<Rightarrow> (rows'', p # ps)))"

fun series_entries ::
  "(string \<Rightarrow> datetime option) \<Rightarrow> real option list \<Rightarrow> real option list \<Rightarrow> nat \<Rightarrow> string list \<Rightarrow>
   entry list \<times> error option" where
  "series_entries fromisoformat temperatures humidities i [] = ([], None)"
| "series_entries fromisoformat temperatures humidities i (timestamp_str # rest) =
     (case fromisoformat (replace_T timestamp_str) of
        None \<Rightarrow> ([], Some ValueError)
      | Some ts \<Rightarrow>
          if length temperatures \<le> i then ([], Some IndexError)
          else (case temperatures ! i of
             None \<Rightarrow> series_entries fromisoformat temperatures humidities (Suc i) rest
           | Some temp \<Rightarrow>
               if length humidities \<le> i then ([], Some IndexError)
               else (case humidities ! i of
                  None \<Rightarrow> series_entries fromisoformat temperatures humidities (Suc i) rest
                | Some hum \<Rightarrow>
                    (case series_entries fromisoformat temperatures humidities (Suc i) rest of
                       (es, err) \<Rightarrow> ((ts, temp, hum) # es, err)))))"

text \<open>
  \<open>holds_value\<close>: the record that a lookup of the triple finds carries the given
  temperature and humidity.
\<close>

definition holds_value :: "real \<Rightarrow> real \<Rightarrow> datetime \<Rightarrow> real \<Rightarrow> real \<Rightarrow> WeatherData list \<Rightarrow> bool" where
  "holds_value lat lon ts t h rows =
    (case first_ref (filter_by ts lat lon) rows of
       None \<Rightarrow> False
     | Some p \<Rightarrow> temperature_2m (rows ! p) = t \<and> relative_humidity_2m (rows ! p) = h)"

subsection \<open>Example data\<close>

text \<open>
  A parser for the two timestamps of the examples (microseconds since the epoch), a
  store with one record for Zurich, and a series of two hours for the same place, the
  first of which is the hour already stored.
\<close>

definition example_fromisoformat :: "string \<Rightarrow> datetime option" where
  "example_fromisoformat s =
    (if s = ''2024-01-01 00:00'' then Some 1704067200000000
     else if s = ''2024-01-01 01:00'' then Some 1704070800000000
     else None)"

definition example_row :: WeatherData where
  "example_row = \<lparr>id' = 1, timestamp = 1704067200000000, latitude = 47.37, longitude = 8.55,
     temperature_2m = 0.5, relative_humidity_2m = 70, created_at = 1700000000000000\<rparr>"

definition example_store :: state where
  "example_store = \<lparr>persisted = [example_row], session = [example_row]\<rparr>"

definition example_series :: api_response where
  "example_series = \<lparr>hourly = Some \<lparr>
     h_time = Some [''2024-01-01T00:00'', ''2024-01-01T01:00''],
     h_temperature_2m = Some [Some 1.5, Some 2],
     h_relative_humidity_2m = Some [Some 80, Some 81]\<rparr>\<rparr>"

text \<open>What the example store is after the example series has been stored at 47.37, 8.55.\<close>

definition example_row_updated :: WeatherData where
  "example_row_updated = example_row\<lparr>temperature_2m := 1.5, relative_humidity_2m := 80\<rparr>"

definition example_row_new :: WeatherData where
  "example_row_new = \<lparr>id' = 2, timestamp = 1704070800000000, latitude = 47.37, longitude = 8.55,
     temperature_2m = 2, relative_humidity_2m = 81, created_at = 1704100000000000\<rparr>"

definition example_store_after :: state where
  "example_store_after = \<lparr>persisted = [example_row_updated, example_row_new],
     session = [example_row_updated, example_row_new]\<rparr>"

text \<open>
  Two malformed series: one whose temperature array is shorter than its time array, and
  one whose humidity array is shorter while the temperature of that hour is \<open>null\<close>.
\<close>

definition example_short_series :: api_response where
  "example_short_series = \<lparr>hourly = Some \<lparr>
     h_time = Some [''2024-01-01T00:00'', ''2024-01-01T01:00''],
     h_temperature_2m = Some [Some 1.5],
     h_relative_humidity_2m = Some [Some 80, Some 81]\<rparr>\<rparr>"

definition example_null_series :: api_response where
  "example_null_series = \<lparr>hourly = Some \<lparr>
     h_time = Some [''2024-01-01T00:00''],
     h_temperature_2m = Some [None],
     h_relative_humidity_2m = Some []\<rparr>\<rparr>"

definition empty_store :: state where
  "empty_store = \<lparr>persisted = [], session = []\<rparr>"

text \<open>An environment in which every library call of the PDF handler returns.\<close>

definition example_env :: pdf_env where
  "example_env = \<lparr>weasyprint_available = True, chart_ok = True, tempfile_ok = True,
     write_pdf_ok = True, reportlab_ok = True, send_file_ok = True\<rparr>"

section \<open>Lemmas on the upsert\<close>

lemma first_ref_SomeD:
  "first_ref P xs = Some p \<Longrightarrow> p < length xs \<and> P (xs ! p)"
  by (induction xs arbitrary: p) (auto split: if_splits)

lemma first_ref_None_iff: "first_ref P xs = None \<longleftrightarrow> (\<forall>x\<in>set xs. \<not> P x)"
  by (induction xs) auto

lemma first_ref_keys:
  "first_ref (filter_by ts lat lon) rows = first_ref (\<lambda>k. k = (ts, lat, lon)) (map keyof rows)"
  by (induction rows) (auto simp: filter_by_def keyof_def)

lemma store_loop_eq:
  "store_loop f now lat lon temps hums i ss rows acc =
    (case series_entries f temps hums i ss of
       (es, err) \<Rightarrow>
         (case store_all now lat lon es rows of
            (rows', ps) \<Rightarrow> ((case err of None \<Rightarrow> Inr (acc @ ps) | Some e \<Rightarrow> Inl e), rows')))"
proof (induction ss arbitrary: i rows acc)
  case Nil
  then show ?case by simp
next
  case (Cons s ss)
  show ?case
    by (simp add: Cons.IH split: option.split prod.split)
qed

lemma keys_store_record:
  "map keyof (fst (store_record now lat lon ts t h rows)) =
     (if (ts, lat, lon) \<in> set (map keyof rows) then map keyof rows
      else map keyof rows @ [(ts, lat, lon)])"
proof (cases "first_ref (filter_by ts lat lon) rows")
  case None
  then have "(ts, lat, lon) \<notin> set (map keyof rows)"
    by (auto simp: first_ref_None_iff filter_by_def keyof_def)
  with None show ?thesis
    by (simp add: store_record_def keyof_def)
next
  case (Some p)
  then have p: "p < length rows" "filter_by ts lat lon (rows ! p)"
    by (auto dest: first_ref_SomeD)
  then have "(ts, lat, lon) \<in> set (map keyof rows)"
    by (force simp: filter_by_def keyof_def in_set_conv_nth)
  moreover have "map keyof (rows[p := (rows ! p)\<lparr>temperature_2m := t, relative_humidity_2m := h\<rparr>]) = map keyof rows"
    using p by (simp add: map_update keyof_def list_update_same_conv)
  ultimately show ?thesis using Some
    by (simp add: store_record_def)
qed

lemma unique_store_record:
  "unique_triples rows \<Longrightarrow> unique_triples (fst (store_record now lat lon ts t h rows))"
  by (simp add: unique_triples_def keys_store_record)

lemma unique_store_all:
  "unique_triples rows \<Longrightarrow> unique_triples (fst (store_all now lat lon es rows))"
proof (induction es arbitrary: rows)
  case Nil
  then show ?case by simp
next
  case (Cons e es)
  obtain ts t h where e: "e = (ts, t, h)" by (cases e)
  obtain rows' p where sr: "store_record now lat lon ts t h rows = (rows', p)"
    by (cases "store_record now lat lon ts t h rows")
  have "unique_triples rows'"
    using unique_store_record [OF Cons.prems, of now lat lon ts t h] sr by simp
  from Cons.IH [OF this] show ?case
    by (cases "store_all now lat lon es rows'") (simp add: e sr)
qed

lemma store_record_present:
  "first_ref (filter_by ts lat lon) X = Some p \<Longrightarrow>
   store_record now lat lon ts t h X =
     (X[p := (X ! p)\<lparr>temperature_2m := t, relative_humidity_2m := h\<rparr>], p)"
  by (simp add: store_record_def)

lemma store_record_absent:
  "first_ref (filter_by ts lat lon) X = None \<Longrightarrow>
   store_record now lat lon ts t h X =
     (X @ [\<lparr>id' = next_id X, timestamp = ts, latitude = lat, longitude = lon,
            temperature_2m = t, relative_humidity_2m = h, created_at = now\<rparr>], length X)"
  by (simp add: store_record_def)

lemma keys_update:
  "map keyof (X[p := (X ! p)\<lparr>temperature_2m := t, relative_humidity_2m := h\<rparr>]) = map keyof X"
proof (cases "p < length X")
  case True
  then show ?thesis by (simp add: map_update keyof_def list_update_same_conv)
next
  case False
  then show ?thesis by (simp only: list_update_beyond not_less)
qed

lemma ids_update:
  "map id' (X[p := (X ! p)\<lparr>temperature_2m := t, relative_humidity_2m := h\<rparr>]) = map id' X"
proof (cases "p < length X")
  case True
  then show ?thesis by (simp add: map_update list_update_same_conv)
next
  case False
  then show ?thesis by (simp only: list_update_beyond not_less)
qed

lemma next_id_update:
  "next_id (X[p := (X ! p)\<lparr>temperature_2m := t, relative_humidity_2m := h\<rparr>]) = next_id X"
  by (simp add: next_id_def ids_update)

lemma first_ref_update:
  "first_ref (filter_by ts lat lon) (X[p := (X ! p)\<lparr>temperature_2m := t, relative_humidity_2m := h\<rparr>])
     = first_ref (filter_by ts lat lon) X"
  by (simp add: first_ref_keys keys_update)

lemma first_ref_append:
  "first_ref P xs = Some p \<Longrightarrow> first_ref P (xs @ ys) = Some p"
  by (induction xs arbitrary: p) (auto split: if_splits)

lemma first_ref_snoc_None:
  "first_ref P xs = None \<Longrightarrow> first_ref P (xs @ [y]) = (if P y then Some (length xs) else None)"
  by (induction xs) (auto split: if_splits)

text \<open>Presence of a triple is kept by every store.\<close>

lemma present_store_record:
  "first_ref (filter_by ts' lat lon) X = Some p \<Longrightarrow>
   first_ref (filter_by ts' lat lon) (fst (store_record now lat lon ts t h X)) = Some p"
  by (cases "first_ref (filter_by ts lat lon) X")
     (simp_all add: store_record_absent store_record_present first_ref_update first_ref_append)

lemma present_after_store_record:
  "\<exists>p. first_ref (filter_by ts lat lon) (fst (store_record now lat lon ts t h X)) = Some p"
  by (cases "first_ref (filter_by ts lat lon) X")
     (simp_all add: store_record_absent store_record_present first_ref_update
        first_ref_snoc_None filter_by_def)

lemma store_record_now:
  "first_ref (filter_by ts lat lon) X = Some p \<Longrightarrow>
   store_record now lat lon ts t h X = store_record now' lat lon ts t h X"
  by (simp add: store_record_present)

lemma store_record_overwrite:
  assumes "first_ref (filter_by ts lat lon) X = Some p"
  shows "fst (store_record now lat lon ts t h (fst (store_record now' lat lon ts t' h' X)))
         = fst (store_record now lat lon ts t h X)"
proof -
  have "p < length X" using assms by (auto dest: first_ref_SomeD)
  then show ?thesis using assms
    by (simp add: store_record_present first_ref_update)
qed

lemma store_record_commute:
  assumes p: "first_ref (filter_by ts lat lon) X = Some p" and ne: "ts \<noteq> ts1"
  shows "fst (store_record now1 lat lon ts1 t1 h1 (fst (store_record now lat lon ts t h X)))
         = fst (store_record now lat lon ts t h (fst (store_record now1 lat lon ts1 t1 h1 X)))"
proof (cases "first_ref (filter_by ts1 lat lon) X")
  case None
  have "p < length X" using p by (auto dest: first_ref_SomeD)
  then show ?thesis using p None
    by (simp add: store_record_present store_record_absent first_ref_update first_ref_append
        next_id_update list_update_append1 nth_append)
next
  case (Some q)
  have "filter_by ts lat lon (X ! p)" "filter_by ts1 lat lon (X ! q)"
    using p Some by (auto dest: first_ref_SomeD)
  with ne have "p \<noteq> q" by (auto simp: filter_by_def)
  then show ?thesis using p Some
    by (simp add: store_record_present first_ref_update list_update_swap)
qed

lemma store_all_Cons_fst:
  "fst (store_all now lat lon ((ts, t, h) # es) X) =
   fst (store_all now lat lon es (fst (store_record now lat lon ts t h X)))"
  by (simp split: prod.split)

lemma present_store_all:
  "first_ref (filter_by ts' lat lon) X = Some p \<Longrightarrow>
   first_ref (filter_by ts' lat lon) (fst (store_all now lat lon es X)) = Some p"
proof (induction es arbitrary: X)
  case Nil
  then show ?case by simp
next
  case (Cons e es)
  obtain ts t h where e: "e = (ts, t, h)" by (cases e)
  show ?case
    unfolding e store_all_Cons_fst
    by (rule Cons.IH) (rule present_store_record [OF Cons.prems])
qed

lemma store_all_overwritten:
  "first_ref (filter_by ts lat lon) X = Some p \<Longrightarrow> ts \<in> fst ` set es \<Longrightarrow>
   fst (store_all now lat lon es (fst (store_record now' lat lon ts t h X)))
     = fst (store_all now lat lon es X)"
proof (induction es arbitrary: X)
  case Nil
  then show ?case by simp
next
  case (Cons e es)
  obtain ts1 t1 h1 where e: "e = (ts1, t1, h1)" by (cases e)
  show ?case
  proof (cases "ts1 = ts")
    case True
    then show ?thesis
      unfolding e store_all_Cons_fst
      by (simp add: store_record_overwrite [OF Cons.prems(1)])
  next
    case False
    then have mem: "ts \<in> fst ` set es" using Cons.prems(2) e by auto
    have pres: "first_ref (filter_by ts lat lon) (fst (store_record now lat lon ts1 t1 h1 X)) = Some p"
      by (rule present_store_record [OF Cons.prems(1)])
    have "fst (store_record now lat lon ts1 t1 h1 (fst (store_record now' lat lon ts t h X)))
          = fst (store_record now' lat lon ts t h (fst (store_record now lat lon ts1 t1 h1 X)))"
      using store_record_commute [OF Cons.prems(1), of ts1] False by simp
    then show ?thesis
      unfolding e store_all_Cons_fst
      by (simp add: Cons.IH [OF pres mem])
  qed
qed

lemma holds_value_noop:
  assumes "holds_value lat lon ts t h Y"
  shows "fst (store_record now lat lon ts t h Y) = Y"
proof -
  from assms obtain p where p: "first_ref (filter_by ts lat lon) Y = Some p"
    and v: "temperature_2m (Y ! p) = t" "relative_humidity_2m (Y ! p) = h"
    by (auto simp: holds_value_def split: option.splits)
  have "(Y ! p)\<lparr>temperature_2m := t, relative_humidity_2m := h\<rparr> = Y ! p"
    using v by simp
  then show ?thesis using p
    by (simp add: store_record_present)
qed

lemma holds_value_store_record:
  "holds_value lat lon ts t h (fst (store_record now lat lon ts t h X))"
proof (cases "first_ref (filter_by ts lat lon) X")
  case None
  then show ?thesis
    by (simp add: holds_value_def store_record_absent first_ref_snoc_None filter_by_def)
next
  case (Some p)
  then have "p < length X" by (auto dest: first_ref_SomeD)
  then show ?thesis using Some
    by (simp add: holds_value_def store_record_present first_ref_update)
qed

lemma holds_value_other:
  assumes "holds_value lat lon ts t h Y" and "ts \<noteq> ts1"
  shows "holds_value lat lon ts t h (fst (store_record now lat lon ts1 t1 h1 Y))"
proof -
  from assms obtain p where p: "first_ref (filter_by ts lat lon) Y = Some p"
    and v: "temperature_2m (Y ! p) = t" "relative_humidity_2m (Y ! p) = h"
    by (auto simp: holds_value_def split: option.splits)
  have pl: "p < length Y" and kp: "filter_by ts lat lon (Y ! p)"
    using p by (auto dest: first_ref_SomeD)
  show ?thesis
  proof (cases "first_ref (filter_by ts1 lat lon) Y")
    case None
    then show ?thesis using p v pl
      by (simp add: holds_value_def store_record_absent first_ref_append nth_append)
  next
    case (Some q)
    then have "filter_by ts1 lat lon (Y ! q)" by (auto dest: first_ref_SomeD)
    with kp assms(2) have "p \<noteq> q" by (auto simp: filter_by_def)
    then show ?thesis using p v Some
      by (simp add: holds_value_def store_record_present first_ref_update)
  qed
qed

lemma holds_value_store_all:
  "holds_value lat lon ts t h Y \<Longrightarrow> ts \<notin> fst ` set es \<Longrightarrow>
   holds_value lat lon ts t h (fst (store_all now lat lon es Y))"
proof (induction es arbitrary: Y)
  case Nil
  then show ?case by simp
next
  case (Cons e es)
  obtain ts1 t1 h1 where e: "e = (ts1, t1, h1)" by (cases e)
  have ne: "ts \<noteq> ts1" and nm: "ts \<notin> fst ` set es" using Cons.prems(2) e by auto
  show ?case
    unfolding e store_all_Cons_fst
    by (rule Cons.IH [OF holds_value_other [OF Cons.prems(1) ne] nm])
qed

lemma store_all_idem:
  "fst (store_all now2 lat lon es (fst (store_all now1 lat lon es R))) = fst (store_all now1 lat lon es R)"
proof (induction es arbitrary: R)
  case Nil
  then show ?case by simp
next
  case (Cons e es)
  obtain ts t h where e: "e = (ts, t, h)" by (cases e)
  define R' where "R' = fst (store_record now1 lat lon ts t h R)"
  define Y where "Y = fst (store_all now1 lat lon es R')"
  obtain p where p: "first_ref (filter_by ts lat lon) R' = Some p"
    unfolding R'_def using present_after_store_record by blast
  have pY: "first_ref (filter_by ts lat lon) Y = Some p"
    unfolding Y_def by (rule present_store_all [OF p])
  have IH: "fst (store_all now2 lat lon es Y) = Y"
    unfolding Y_def by (rule Cons.IH)
  have "fst (store_all now2 lat lon es (fst (store_record now2 lat lon ts t h Y))) = Y"
  proof (cases "ts \<in> fst ` set es")
    case True
    show ?thesis
      using store_all_overwritten [OF pY True, of now2 now2 t h] IH by simp
  next
    case False
    have "holds_value lat lon ts t h R'"
      unfolding R'_def by (rule holds_value_store_record)
    then have "holds_value lat lon ts t h Y"
      unfolding Y_def using False by (rule holds_value_store_all)
    then have "fst (store_record now2 lat lon ts t h Y) = Y"
      by (rule holds_value_noop)
    then show ?thesis using IH by simp
  qed
  then show ?case
    unfolding e store_all_Cons_fst R'_def Y_def .
qed

lemma process_and_store_eq:
  assumes "hourly api = Some hdat" "h_time hdat = Some tss"
    "h_temperature_2m hdat = Some temps" "h_relative_humidity_2m hdat = Some hums"
  shows "process_and_store_weather_data f now ok api lat lon st =
    (case series_entries f temps hums 0 tss of
       (es, err) \<Rightarrow>
         (case store_all now lat lon es (session st) of
            (rows, ps) \<Rightarrow>
              (case err of
                 Some e \<Rightarrow> (Inl e, st\<lparr>session := rows\<rparr>)
               | None \<Rightarrow>
                   if ok then (Inr (map (\<lambda>p. rows ! p) ps), \<lparr>persisted = rows, session = rows\<rparr>)
                   else (Inl StorageError, st\<lparr>session := persisted st\<rparr>))))"
  using assms
  by (simp add: process_and_store_weather_data_def store_loop_eq split: prod.split option.split)

lemma process_and_store_KeyError:
  "hourly api = None \<or> (\<exists>hdat. hourly api = Some hdat \<and>
      (h_time hdat = None \<or> h_temperature_2m hdat = None \<or> h_relative_humidity_2m hdat = None))
   \<Longrightarrow> process_and_store_weather_data f now ok api lat lon st = (Inl KeyError, st)"
  by (auto simp: process_and_store_weather_data_def split: option.split)

lemma process_cases:
  obtains (missing) "process_and_store_weather_data f now ok api lat lon st = (Inl KeyError, st)"
  | (fields) hdat tss temps hums where "hourly api = Some hdat" "h_time hdat = Some tss"
    "h_temperature_2m hdat = Some temps" "h_relative_humidity_2m hdat = Some hums"
proof (cases "hourly api")
  case None
  then show ?thesis using missing process_and_store_KeyError by blast
next
  case (Some hdat)
  show ?thesis
  proof (cases "h_time hdat = None \<or> h_temperature_2m hdat = None \<or> h_relative_humidity_2m hdat = None")
    case True
    then show ?thesis using missing process_and_store_KeyError Some by blast
  next
    case False
    then show ?thesis using fields Some by auto
  qed
qed

lemma ref_store_record:
  "first_ref (filter_by ts lat lon) (fst (store_record now lat lon ts t h X))
     = Some (snd (store_record now lat lon ts t h X))"
  by (cases "first_ref (filter_by ts lat lon) X")
     (simp_all add: store_record_absent store_record_present first_ref_update
        first_ref_snoc_None filter_by_def)

lemma refs_store_all:
  "snd (store_all now lat lon es X) =
     map (\<lambda>e. the (first_ref (filter_by (fst e) lat lon) (fst (store_all now lat lon es X)))) es"
proof (induction es arbitrary: X)
  case Nil
  then show ?case by simp
next
  case (Cons e es)
  obtain ts t h where e: "e = (ts, t, h)" by (cases e)
  obtain X' p where sr: "store_record now lat lon ts t h X = (X', p)"
    by (cases "store_record now lat lon ts t h X")
  obtain X'' ps where sa: "store_all now lat lon es X' = (X'', ps)"
    by (cases "store_all now lat lon es X'")
  have "first_ref (filter_by ts lat lon) X' = Some p"
    using ref_store_record [of ts lat lon now t h X] sr by simp
  then have "first_ref (filter_by ts lat lon) X'' = Some p"
    using present_store_all [of ts lat lon X' p now es] sa by simp
  moreover have "ps = map (\<lambda>e. the (first_ref (filter_by (fst e) lat lon) X'')) es"
    using Cons.IH [of X'] sa by simp
  ultimately show ?case
    by (simp add: e sr sa)
qed

lemma store_all_again:
  "store_all now2 lat lon es (fst (store_all now1 lat lon es R)) = store_all now1 lat lon es R"
proof -
  have "snd (store_all now2 lat lon es (fst (store_all now1 lat lon es R)))
        = snd (store_all now1 lat lon es R)"
    using refs_store_all [of now2 lat lon es "fst (store_all now1 lat lon es R)"]
      refs_store_all [of now1 lat lon es R]
    by (simp add: store_all_idem)
  then show ?thesis
    by (simp add: prod_eq_iff store_all_idem)
qed

subsection \<open>The example, run\<close>

lemmas example_defs = example_fromisoformat_def example_row_def example_store_def
  example_series_def example_row_updated_def example_row_new_def example_store_after_def

lemma example_run:
  "process_and_store_weather_data example_fromisoformat 1704100000000000 True example_series
     47.37 8.55 example_store
   = (Inr [example_row_updated, example_row_new], example_store_after)"
  by (simp add: process_and_store_weather_data_def store_record_def filter_by_def
      replace_T_def next_id_def example_defs)

subsection \<open>Errors of the loop\<close>

lemma series_entries_err_Cons:
  "snd (series_entries f temps hums i (s # ss)) =
    (case f (replace_T s) of
       None \<Rightarrow> Some ValueError
     | Some ts \<Rightarrow>
         if length temps \<le> i then Some IndexError
         else (case temps ! i of
            None \<Rightarrow> snd (series_entries f temps hums (Suc i) ss)
          | Some t \<Rightarrow>
              if length hums \<le> i then Some IndexError
              else snd (series_entries f temps hums (Suc i) ss)))"
  by (simp split: option.split prod.split)

lemma series_entries_errors:
  "snd (series_entries f temps hums i ss) \<in> {None, Some ValueError, Some IndexError}"
proof (induction ss arbitrary: i)
  case Nil
  then show ?case by simp
next
  case (Cons s ss)
  show ?case
    unfolding series_entries_err_Cons using Cons.IH [of "Suc i"]
    by (simp split: option.split)
qed

lemma series_entries_no_IndexError:
  "i + length ss \<le> length temps \<Longrightarrow> i + length ss \<le> length hums \<Longrightarrow>
   snd (series_entries f temps hums i ss) \<noteq> Some IndexError"
proof (induction ss arbitrary: i)
  case Nil
  then show ?case by simp
next
  case (Cons s ss)
  have "snd (series_entries f temps hums (Suc i) ss) \<noteq> Some IndexError"
    using Cons.IH [of "Suc i"] Cons.prems by simp
  then show ?case
    unfolding series_entries_err_Cons using Cons.prems
    by (simp split: option.split)
qed

lemma series_entries_IndexError_iff:
  "\<forall>s\<in>set ss. f (replace_T s) \<noteq> None \<Longrightarrow>
   snd (series_entries f temps hums i0 ss) = Some IndexError \<longleftrightarrow>
     (\<exists>i. i0 \<le> i \<and> i < i0 + length ss \<and>
        (length temps \<le> i \<or> (temps ! i \<noteq> None \<and> length hums \<le> i)))"
proof (induction ss arbitrary: i0)
  case Nil
  then show ?case by simp
next
  case (Cons s ss)
  then obtain ts where ts: "f (replace_T s) = Some ts" by auto
  have IH: "snd (series_entries f temps hums (Suc i0) ss) = Some IndexError \<longleftrightarrow>
     (\<exists>i. Suc i0 \<le> i \<and> i < Suc i0 + length ss \<and>
        (length temps \<le> i \<or> (temps ! i \<noteq> None \<and> length hums \<le> i)))"
    using Cons.IH [of "Suc i0"] Cons.prems by simp
  let ?bad = "\<lambda>i. length temps \<le> i \<or> (temps ! i \<noteq> None \<and> length hums \<le> i)"
  have split: "(\<exists>i. i0 \<le> i \<and> i < i0 + length (s # ss) \<and> ?bad i) \<longleftrightarrow>
      ?bad i0 \<or> (\<exists>i. Suc i0 \<le> i \<and> i < Suc i0 + length ss \<and> ?bad i)"
    (is "?L \<longleftrightarrow> ?R")
  proof
    assume ?L
    then obtain i where i: "i0 \<le> i" "i < i0 + length (s # ss)" "?bad i" by blast
    show ?R
    proof (cases "i = i0")
      case True
      with i show ?thesis by simp
    next
      case False
      with i have "Suc i0 \<le> i" "i < Suc i0 + length ss" by simp_all
      with i(3) show ?thesis by blast
    qed
  next
    assume ?R
    then show ?L
    proof
      assume "?bad i0"
      then show ?L by (intro exI [of _ i0]) simp
    next
      assume "\<exists>i. Suc i0 \<le> i \<and> i < Suc i0 + length ss \<and> ?bad i"
      then obtain i where "Suc i0 \<le> i" "i < Suc i0 + length ss" "?bad i" by blast
      then show ?L by (intro exI [of _ i]) simp
    qed
  qed
  have step: "snd (series_entries f temps hums i0 (s # ss)) = Some IndexError \<longleftrightarrow>
      ?bad i0 \<or> snd (series_entries f temps hums (Suc i0) ss) = Some IndexError"
    using ts by (auto split: option.splits prod.splits)
  show ?case
    unfolding split step IH ..
qed

subsection \<open>From an hour of the series to the record it leaves\<close>

lemma series_entries_mem:
  "series_entries f temps hums i0 ss = (es, err) \<Longrightarrow> (ts, t, h) \<in> set es \<Longrightarrow>
   \<exists>k<length ss. f (replace_T (ss ! k)) = Some ts \<and> temps ! (i0 + k) = Some t \<and> hums ! (i0 + k) = Some h"
proof (induction ss arbitrary: i0 es err)
  case Nil
  then show ?case by simp
next
  case (Cons s ss)
  have rec: "\<exists>k<length (s # ss). f (replace_T ((s # ss) ! k)) = Some ts
      \<and> temps ! (i0 + k) = Some t \<and> hums ! (i0 + k) = Some h"
    if "series_entries f temps hums (Suc i0) ss = (es', err')" "(ts, t, h) \<in> set es'" for es' err'
  proof -
    from Cons.IH [OF that] obtain k where "k < length ss" "f (replace_T (ss ! k)) = Some ts"
      "temps ! (Suc i0 + k) = Some t" "hums ! (Suc i0 + k) = Some h" by blast
    then show ?thesis by (intro exI [of _ "Suc k"]) simp
  qed
  show ?case
  proof (cases "f (replace_T s)")
    case None
    with Cons.prems show ?thesis by simp
  next
    case (Some ts0)
    show ?thesis
    proof (cases "length temps \<le> i0")
      case True
      with Some Cons.prems show ?thesis by simp
    next
      case lt: False
      show ?thesis
      proof (cases "temps ! i0")
        case None
        with Some lt Cons.prems rec show ?thesis by simp
      next
        case t0: (Some t0)
        show ?thesis
        proof (cases "length hums \<le> i0")
          case True
          with Some lt t0 Cons.prems show ?thesis by simp
        next
          case lh: False
          show ?thesis
          proof (cases "hums ! i0")
            case None
            with Some lt t0 lh Cons.prems rec show ?thesis by simp
          next
            case h0: (Some h0)
            obtain es' err' where r: "series_entries f temps hums (Suc i0) ss = (es', err')"
              by (cases "series_entries f temps hums (Suc i0) ss")
            with Some lt t0 lh h0 Cons.prems have es: "es = (ts0, t0, h0) # es'" by simp
            show ?thesis
            proof (cases "(ts, t, h) = (ts0, t0, h0)")
              case True
              with Some t0 h0 show ?thesis by (intro exI [of _ 0]) simp
            next
              case False
              with es Cons.prems(2) have "(ts, t, h) \<in> set es'" by auto
              with rec r show ?thesis by blast
            qed
          qed
        qed
      qed
    qed
  qed
qed

lemma series_entries_last:
  "series_entries f temps hums i0 ss = (es, None) \<Longrightarrow> k < length ss \<Longrightarrow>
   f (replace_T (ss ! k)) = Some ts \<Longrightarrow> temps ! (i0 + k) = Some t \<Longrightarrow> hums ! (i0 + k) = Some h \<Longrightarrow>
   (\<forall>j. k < j \<and> j < length ss \<and> f (replace_T (ss ! j)) = Some ts \<longrightarrow>
      temps ! (i0 + j) = None \<or> hums ! (i0 + j) = None) \<Longrightarrow>
   \<exists>es1 es2. es = es1 @ (ts, t, h) # es2 \<and> ts \<notin> fst ` set es2"
proof (induction ss arbitrary: i0 k es)
  case Nil
  then show ?case by simp
next
  case (Cons s ss)
  obtain es' err' where r: "series_entries f temps hums (Suc i0) ss = (es', err')"
    by (cases "series_entries f temps hums (Suc i0) ss")
  show ?case
  proof (cases k)
    case 0
    with Cons.prems have s: "f (replace_T s) = Some ts" "temps ! i0 = Some t" "hums ! i0 = Some h"
      by simp_all
    from Cons.prems(1) s r have es: "es = (ts, t, h) # es'" and "err' = None"
      by (auto split: if_splits)
    have "ts \<notin> fst ` set es'"
    proof
      assume "ts \<in> fst ` set es'"
      then obtain t' h' where "(ts, t', h') \<in> set es'" by force
      from series_entries_mem [OF r this] obtain j where j: "j < length ss"
        "f (replace_T (ss ! j)) = Some ts" "temps ! (Suc i0 + j) = Some t'"
        "hums ! (Suc i0 + j) = Some h'" by blast
      from Cons.prems(6) [rule_format, of "Suc j"] j 0 show False by simp
    qed
    with es have "es = [] @ (ts, t, h) # es' \<and> ts \<notin> fst ` set es'" by simp
    then show ?thesis by blast
  next
    case (Suc k')
    from Cons.prems(1) r have e': "err' = None"
      by (auto split: option.splits if_splits)
    have later: "\<forall>j. k' < j \<and> j < length ss \<and> f (replace_T (ss ! j)) = Some ts \<longrightarrow>
        temps ! (Suc i0 + j) = None \<or> hums ! (Suc i0 + j) = None"
    proof (intro allI impI)
      fix j assume "k' < j \<and> j < length ss \<and> f (replace_T (ss ! j)) = Some ts"
      with Cons.prems(6) [rule_format, of "Suc j"] Suc
      show "temps ! (Suc i0 + j) = None \<or> hums ! (Suc i0 + j) = None" by simp
    qed
    from Cons.prems Suc have k': "k' < length ss" "f (replace_T (ss ! k')) = Some ts"
      "temps ! (Suc i0 + k') = Some t" "hums ! (Suc i0 + k') = Some h" by simp_all
    from Cons.IH [OF r [unfolded e'] k' later]
    obtain es1 es2 where es': "es' = es1 @ (ts, t, h) # es2" "ts \<notin> fst ` set es2" by blast
    from Cons.prems(1) r have "es = es' \<or> (\<exists>e. es = e # es')"
      by (auto split: option.splits if_splits)
    then show ?thesis
    proof
      assume "es = es'"
      with es' show ?thesis by blast
    next
      assume "\<exists>e. es = e # es'"
      then obtain e where "es = (e # es1) @ (ts, t, h) # es2" using es' by auto
      with es'(2) show ?thesis by blast
    qed
  qed
qed

lemma store_all_append_fst:
  "fst (store_all now lat lon (es1 @ es2) X)
     = fst (store_all now lat lon es2 (fst (store_all now lat lon es1 X)))"
proof (induction es1 arbitrary: X)
  case Nil
  then show ?case by simp
next
  case (Cons e es1)
  obtain ts t h where e: "e = (ts, t, h)" by (cases e)
  show ?case
    using Cons.IH by (simp only: e append_Cons store_all_Cons_fst)
qed

lemma holds_value_last:
  assumes "es = es1 @ (ts, t, h) # es2" and "ts \<notin> fst ` set es2"
  shows "holds_value lat lon ts t h (fst (store_all now lat lon es X))"
  unfolding assms(1) store_all_append_fst store_all_Cons_fst
  by (rule holds_value_store_all [OF holds_value_store_record assms(2)])

lemma holds_value_mem:
  assumes "holds_value lat lon ts t h X"
  shows "\<exists>r\<in>set X. filter_by ts lat lon r \<and> temperature_2m r = t \<and> relative_humidity_2m r = h"
proof -
  from assms obtain p where p: "first_ref (filter_by ts lat lon) X = Some p"
    and v: "temperature_2m (X ! p) = t" "relative_humidity_2m (X ! p) = h"
    by (auto simp: holds_value_def split: option.splits)
  from first_ref_SomeD [OF p] v show ?thesis
    by (intro bexI [of _ "X ! p"]) simp_all
qed

lemma present_all_store_all:
  "e \<in> set es \<Longrightarrow>
   \<exists>p. first_ref (filter_by (fst e) lat lon) (fst (store_all now lat lon es X)) = Some p"
proof (induction es arbitrary: X)
  case Nil
  then show ?case by simp
next
  case (Cons e0 es)
  obtain ts t h where e0: "e0 = (ts, t, h)" by (cases e0)
  show ?case
  proof (cases "e = e0")
    case True
    obtain p where "first_ref (filter_by ts lat lon) (fst (store_record now lat lon ts t h X)) = Some p"
      using present_after_store_record by blast
    from present_store_all [OF this] show ?thesis
      unfolding e0 store_all_Cons_fst True by auto
  next
    case False
    with Cons.prems have "e \<in> set es" by simp
    from Cons.IH [OF this] show ?thesis
      unfolding e0 store_all_Cons_fst .
  qed
qed

lemma refs_valid:
  assumes "p \<in> set (snd (store_all now lat lon es X))"
  shows "p < length (fst (store_all now lat lon es X))
       \<and> latitude (fst (store_all now lat lon es X) ! p) = lat
       \<and> longitude (fst (store_all now lat lon es X) ! p) = lon"
proof -
  from assms obtain e where e: "e \<in> set es"
    and p: "p = the (first_ref (filter_by (fst e) lat lon) (fst (store_all now lat lon es X)))"
    by (subst (asm) refs_store_all) auto
  from present_all_store_all [OF e] obtain q where
    q: "first_ref (filter_by (fst e) lat lon) (fst (store_all now lat lon es X)) = Some q"
    by blast
  with p have "p = q" by simp
  with first_ref_SomeD [OF q] show ?thesis
    by (simp add: filter_by_def)
qed

lemma set_by_location:
  "set (fst (get_weather_data_by_location now lat lon hours st))
     = {r \<in> set (session st). latitude r = lat \<and> longitude r = lon
          \<and> now - timedelta_hours hours \<le> timestamp r}"
  by (auto simp: get_weather_data_by_location_def)

lemma filter_update_first:
  "first_ref P X = Some p \<Longrightarrow> P y \<Longrightarrow> filter P (X[p := y]) = y # tl (filter P X)"
  by (induction X arbitrary: p) (auto split: if_splits)

lemma first_ref_hd_filter:
  "first_ref P X = Some p \<Longrightarrow> filter P X \<noteq> [] \<and> hd (filter P X) = X ! p"
  by (induction X arbitrary: p) (auto split: if_splits)

lemma filter_update_other:
  "q < length X \<Longrightarrow> \<not> P (X ! q) \<Longrightarrow> \<not> P y \<Longrightarrow> filter P (X[q := y]) = filter P X"
proof (induction X arbitrary: q)
  case Nil
  then show ?case by simp
next
  case (Cons x X)
  then show ?case by (cases q) auto
qed

lemma filter_unique:
  assumes "unique_triples X" and "r0 \<in> set X" and "filter_by ts lat lon r0"
  shows "filter (filter_by ts lat lon) X = [r0]"
  using assms(1,2)
proof (induction X)
  case Nil
  then show ?case by simp
next
  case (Cons x X)
  have key: "filter_by ts lat lon r \<longleftrightarrow> keyof r = keyof r0" for r
    using assms(3) by (auto simp: filter_by_def keyof_def)
  show ?case
  proof (cases "x = r0")
    case True
    have "keyof r0 \<notin> keyof ` set X"
      using Cons.prems(1) True by (simp add: unique_triples_def)
    then have "\<not> filter_by ts lat lon r" if "r \<in> set X" for r
      using that unfolding key by (metis imageI)
    then have "filter (filter_by ts lat lon) X = []" by (simp add: filter_empty_conv)
    with True assms(3) show ?thesis by simp
  next
    case False
    with Cons.prems have r0: "r0 \<in> set X" and u: "unique_triples X"
      by (simp_all add: unique_triples_def)
    have "keyof x \<noteq> keyof r0"
      using Cons.prems(1) r0 by (auto simp: unique_triples_def)
    then show ?thesis using Cons.IH [OF u r0] by (simp add: key)
  qed
qed

lemma filter_store_record_other:
  assumes "ts \<noteq> ts1"
  shows "filter (filter_by ts lat lon) (fst (store_record now lat lon ts1 t1 h1 X))
       = filter (filter_by ts lat lon) X"
proof (cases "first_ref (filter_by ts1 lat lon) X")
  case None
  then show ?thesis using assms
    by (simp add: store_record_absent filter_by_def)
next
  case (Some q)
  from first_ref_SomeD [OF Some] have q: "q < length X" "filter_by ts1 lat lon (X ! q)" by simp_all
  have "\<not> filter_by ts lat lon (X ! q)"
    "\<not> filter_by ts lat lon ((X ! q)\<lparr>temperature_2m := t1, relative_humidity_2m := h1\<rparr>)"
    using q(2) assms by (simp_all add: filter_by_def)
  then show ?thesis using Some q(1)
    by (simp add: store_record_present filter_update_other)
qed

lemma filter_store_record_same:
  assumes "filter (filter_by ts lat lon) X = [r]"
  shows "filter (filter_by ts lat lon) (fst (store_record now lat lon ts t' h' X))
       = [r\<lparr>temperature_2m := t', relative_humidity_2m := h'\<rparr>]"
proof (cases "first_ref (filter_by ts lat lon) X")
  case None
  then have "filter (filter_by ts lat lon) X = []"
    by (simp add: first_ref_None_iff filter_empty_conv)
  with assms show ?thesis by simp
next
  case (Some p)
  from first_ref_hd_filter [OF Some] assms have r: "X ! p = r" by simp
  from first_ref_SomeD [OF Some] have "filter_by ts lat lon (X ! p)" by simp
  then have "filter_by ts lat lon ((X ! p)\<lparr>temperature_2m := t', relative_humidity_2m := h'\<rparr>)"
    by (simp add: filter_by_def)
  from filter_update_first [OF Some this] show ?thesis
    using Some assms r by (simp add: store_record_present)
qed

lemma filter_store_all:
  "filter (filter_by ts lat lon) X = [r0\<lparr>temperature_2m := a, relative_humidity_2m := b\<rparr>] \<Longrightarrow>
   \<exists>a' b'. filter (filter_by ts lat lon) (fst (store_all now lat lon es X))
      = [r0\<lparr>temperature_2m := a', relative_humidity_2m := b'\<rparr>]"
proof (induction es arbitrary: X a b)
  case Nil
  then show ?case by auto
next
  case (Cons e es)
  obtain ts1 t1 h1 where e: "e = (ts1, t1, h1)" by (cases e)
  have "\<exists>a' b'. filter (filter_by ts lat lon) (fst (store_record now lat lon ts1 t1 h1 X))
      = [r0\<lparr>temperature_2m := a', relative_humidity_2m := b'\<rparr>]"
  proof (cases "ts1 = ts")
    case True
    show ?thesis
      unfolding True using filter_store_record_same [OF Cons.prems, of now t1 h1] by auto
  next
    case False
    then have "ts \<noteq> ts1" by simp
    from filter_store_record_other [OF this] Cons.prems show ?thesis by auto
  qed
  then obtain a' b' where "filter (filter_by ts lat lon) (fst (store_record now lat lon ts1 t1 h1 X))
      = [r0\<lparr>temperature_2m := a', relative_humidity_2m := b'\<rparr>]" by blast
  from Cons.IH [OF this] show ?case
    unfolding e store_all_Cons_fst .
qed

subsection \<open>Facts about the example series\<close>

lemma example_fields:
  "hourly example_series = Some \<lparr>
     h_time = Some [''2024-01-01T00:00'', ''2024-01-01T01:00''],
     h_temperature_2m = Some [Some 1.5, Some 2],
     h_relative_humidity_2m = Some [Some 80, Some 81]\<rparr>"
  by (simp add: example_series_def)

lemma example_last:
  "\<forall>j. 0 < j \<and> j < length [''2024-01-01T00:00'', ''2024-01-01T01:00'']
        \<and> example_fromisoformat (replace_T ([''2024-01-01T00:00'', ''2024-01-01T01:00''] ! j))
            = Some 1704067200000000 \<longrightarrow>
      [Some (1.5::real), Some 2] ! j = None \<or> [Some (80::real), Some 81] ! j = None"
proof (intro allI impI)
  fix j :: nat
  assume a: "0 < j \<and> j < length [''2024-01-01T00:00'', ''2024-01-01T01:00'']
        \<and> example_fromisoformat (replace_T ([''2024-01-01T00:00'', ''2024-01-01T01:00''] ! j))
            = Some 1704067200000000"
  then have "j = 1" by simp
  with a show "[Some (1.5::real), Some 2] ! j = None \<or> [Some (80::real), Some 81] ! j = None"
    by (simp add: example_fromisoformat_def replace_T_def)
qed

lemma example_arrays:
  "h_time \<lparr>
     h_time = Some [''2024-01-01T00:00'', ''2024-01-01T01:00''],
     h_temperature_2m = Some [Some 1.5, Some 2],
     h_relative_humidity_2m = Some [Some 80, Some 81]\<rparr>
     = Some [''2024-01-01T00:00'', ''2024-01-01T01:00'']"
  "h_temperature_2m \<lparr>
     h_time = Some [''2024-01-01T00:00'', ''2024-01-01T01:00''],
     h_temperature_2m = Some [Some 1.5, Some 2],
     h_relative_humidity_2m = Some [Some 80, Some 81]\<rparr>
     = Some [Some 1.5, Some 2]"
  "h_relative_humidity_2m \<lparr>
     h_time = Some [''2024-01-01T00:00'', ''2024-01-01T01:00''],
     h_temperature_2m = Some [Some 1.5, Some 2],
     h_relative_humidity_2m = Some [Some 80, Some 81]\<rparr>
     = Some [Some 80, Some 81]"
  by simp_all

lemma example_hour:
  "0 < length [''2024-01-01T00:00'', ''2024-01-01T01:00'']"
  "example_fromisoformat (replace_T ([''2024-01-01T00:00'', ''2024-01-01T01:00''] ! 0))
      = Some 1704067200000000"
  "[Some (1.5::real), Some 2] ! 0 = Some 1.5"
  "[Some (80::real), Some 81] ! 0 = Some 80"
  by (simp_all add: example_fromisoformat_def replace_T_def)

section \<open>The claims\<close>

subsection \<open>C1: one record per triple\<close>

text \<open>
  Claim C1. Every core operation keeps the invariant that the store holds at most one
  record for each (timestamp, latitude, longitude): starting from a store that satisfies
  it, a call of \<open>process_and_store_weather_data\<close> leaves both the persisted table and
  the session's table with distinct triples, whatever the series, the clock and the
  outcome of the call (returned or failed), and the two queries return the state they
  were given.
\<close>

theorem reconcile_keeps_unique_triples:
  assumes "unique_triples (persisted st)" and "unique_triples (session st)"
  shows "unique_triples (persisted (snd (process_and_store_weather_data f now ok api lat lon st)))
       \<and> unique_triples (session (snd (process_and_store_weather_data f now ok api lat lon st)))
       \<and> snd (get_recent_weather_data now' hours st) = st
       \<and> snd (get_weather_data_by_location now' lat' lon' hours st) = st"
proof -
  have q: "snd (get_recent_weather_data now' hours st) = st"
    "snd (get_weather_data_by_location now' lat' lon' hours st) = st"
    by (simp_all add: get_recent_weather_data_def get_weather_data_by_location_def)
  have "unique_triples (persisted (snd (process_and_store_weather_data f now ok api lat lon st)))
       \<and> unique_triples (session (snd (process_and_store_weather_data f now ok api lat lon st)))"
  proof (cases rule: process_cases [of f now ok api lat lon st])
    case missing
    then show ?thesis using assms by simp
  next
    case (fields hdat tss temps hums)
    obtain es err where se: "series_entries f temps hums 0 tss = (es, err)"
      by (cases "series_entries f temps hums 0 tss")
    obtain rows ps where sa: "store_all now lat lon es (session st) = (rows, ps)"
      by (cases "store_all now lat lon es (session st)")
    have "unique_triples rows"
      using unique_store_all [OF assms(2), of now lat lon es] sa by simp
    then show ?thesis using assms
      by (simp add: process_and_store_eq [OF fields] se sa split: option.split)
  qed
  with q show ?thesis by simp
qed

theorem reconcile_keeps_unique_triples_witness:
  "unique_triples (persisted example_store) \<and> unique_triples (session example_store)
   \<and> unique_triples (persisted (snd (process_and_store_weather_data example_fromisoformat
        1704100000000000 True example_series 47.37 8.55 example_store)))
   \<and> unique_triples (session (snd (process_and_store_weather_data example_fromisoformat
        1704100000000000 True example_series 47.37 8.55 example_store)))
   \<and> snd (get_recent_weather_data 1704100000000000 48 example_store) = example_store
   \<and> snd (get_weather_data_by_location 1704100000000000 47.37 8.55 48 example_store) = example_store"
proof -
  have h1: "unique_triples (persisted example_store)"
    and h2: "unique_triples (session example_store)"
    by (simp_all add: unique_triples_def example_store_def)
  show ?thesis
    using reconcile_keeps_unique_triples [OF h1 h2] h1 h2 by simp
qed

subsection \<open>C2: idempotence\<close>

text \<open>
  Claim C2. Reconcile is idempotent: when a call of \<open>process_and_store_weather_data\<close>
  has returned, a second call with the same series and coordinates, at any later clock,
  leaves the state exactly as the first call left it, so it creates no record, and it
  returns the same records (or fails with the storage error when its commit fails, the
  state still being the one the first call left).
\<close>

theorem reconcile_idempotent:
  assumes "process_and_store_weather_data f now1 ok1 api lat lon st = (Inr recs, st1)"
  shows "process_and_store_weather_data f now2 ok2 api lat lon st1
         = (if ok2 then Inr recs else Inl StorageError, st1)"
proof (cases rule: process_cases [of f now1 ok1 api lat lon st])
  case missing
  with assms show ?thesis by simp
next
  case (fields hdat tss temps hums)
  obtain es err where se: "series_entries f temps hums 0 tss = (es, err)"
    by (cases "series_entries f temps hums 0 tss")
  obtain rows ps where sa: "store_all now1 lat lon es (session st) = (rows, ps)"
    by (cases "store_all now1 lat lon es (session st)")
  from assms have err: "err = None" and ok1: "ok1"
    and st1: "st1 = \<lparr>persisted = rows, session = rows\<rparr>"
    and recs: "recs = map (\<lambda>p. rows ! p) ps"
    by (auto simp: process_and_store_eq [OF fields] se sa split: option.splits if_splits)
  have "store_all now2 lat lon es rows = (rows, ps)"
    using store_all_again [of now2 lat lon es now1 "session st"] sa by simp
  then show ?thesis
    by (simp add: process_and_store_eq [OF fields] se err st1 recs)
qed

theorem reconcile_idempotent_witness:
  "process_and_store_weather_data example_fromisoformat 1704100000000000 True example_series
     47.37 8.55 example_store
     = (Inr [example_row_updated, example_row_new], example_store_after)
   \<and> process_and_store_weather_data example_fromisoformat 1704200000000000 True example_series
       47.37 8.55 example_store_after
     = (Inr [example_row_updated, example_row_new], example_store_after)"
  using reconcile_idempotent [OF example_run, of 1704200000000000 True] example_run by simp

subsection \<open>C3: what a failing call leaves behind\<close>

text \<open>
  Claim C3 says that on any failure the call rolls back and fails with the storage
  error. Counterexample to C3: a series whose temperature array is one short, stored
  into the empty store. The first hour is written, the second raises \<open>IndexError\<close>:
  that is the error of the call, not the storage error, and no rollback is made, so the
  session still holds the first hour. The persisted table is untouched.
\<close>

theorem reconcile_loop_error_counterexample:
  "process_and_store_weather_data example_fromisoformat 1704100000000000 True example_short_series
     47.37 8.55 empty_store
   = (Inl IndexError,
      \<lparr>persisted = [],
       session = [\<lparr>id' = 1, timestamp = 1704067200000000, latitude = 47.37, longitude = 8.55,
                   temperature_2m = 1.5, relative_humidity_2m = 80,
                   created_at = 1704100000000000\<rparr>]\<rparr>)
   \<and> IndexError \<noteq> StorageError"
  by (simp add: process_and_store_weather_data_def store_record_def filter_by_def
      replace_T_def next_id_def example_defs example_short_series_def empty_store_def)

text \<open>
  Claim C3, amended. All writes of a call become persistent by the one commit at its
  end: when the call returns, the commit was made and the persisted table is the
  session's table. When the call fails, for whatever reason, the persisted table is the
  one from before the call. The call fails with the storage error exactly when the loop
  went through (the same call with a commit that succeeds returns) and the commit
  failed; the session is then rolled back to the persisted table.
\<close>

theorem reconcile_commit_atomic:
  assumes "process_and_store_weather_data f now ok api lat lon st = (res, st')"
  shows "(\<forall>recs. res = Inr recs \<longrightarrow> ok \<and> persisted st' = session st')
       \<and> (\<forall>e. res = Inl e \<longrightarrow> persisted st' = persisted st)
       \<and> (res = Inl StorageError \<longleftrightarrow>
            \<not> ok \<and> (\<exists>recs st1. process_and_store_weather_data f now True api lat lon st = (Inr recs, st1)))
       \<and> (res = Inl StorageError \<longrightarrow> st' = st\<lparr>session := persisted st\<rparr>)"
proof (cases rule: process_cases [of f now ok api lat lon st])
  case missing
  have "process_and_store_weather_data f now True api lat lon st = (Inl KeyError, st)"
    using missing
    by (auto simp: process_and_store_weather_data_def split: option.splits prod.splits sum.splits if_splits)
  with missing assms show ?thesis by auto
next
  case (fields hdat tss temps hums)
  obtain es err where se: "series_entries f temps hums 0 tss = (es, err)"
    by (cases "series_entries f temps hums 0 tss")
  obtain rows ps where sa: "store_all now lat lon es (session st) = (rows, ps)"
    by (cases "store_all now lat lon es (session st)")
  have "err \<noteq> Some StorageError"
    using series_entries_errors [of f temps hums 0 tss] se by auto
  then show ?thesis
    using assms
    by (auto simp: process_and_store_eq [OF fields] se sa split: option.splits if_splits)
qed

theorem reconcile_commit_atomic_witness:
  "process_and_store_weather_data example_fromisoformat 1704100000000000 False example_series
     47.37 8.55 example_store = (Inl StorageError, example_store)
   \<and> persisted example_store = persisted example_store
   \<and> example_store = example_store\<lparr>session := persisted example_store\<rparr>
   \<and> (\<exists>recs st1. process_and_store_weather_data example_fromisoformat 1704100000000000 True
         example_series 47.37 8.55 example_store = (Inr recs, st1))"
proof -
  have h: "process_and_store_weather_data example_fromisoformat 1704100000000000 False example_series
     47.37 8.55 example_store = (Inl StorageError, example_store)"
    by (simp add: process_and_store_weather_data_def store_record_def filter_by_def
      replace_T_def next_id_def example_defs)
  show ?thesis
    using reconcile_commit_atomic [OF h] h by simp
qed

subsection \<open>C4: reading back what was stored\<close>

text \<open>
  Claim C4. Round trip: after a call of \<open>process_and_store_weather_data\<close> with
  coordinates (lat, lon) has returned, \<open>get_weather_data_by_location\<close> with the same
  coordinates and a window that reaches back far enough returns, for every hour of the
  series that was stored (timestamp parsed, temperature and humidity present, and no
  later hour of the same series for the same timestamp overwriting it), a record with
  that timestamp and exactly that temperature and humidity; and every record the call
  returned whose timestamp lies in the window is among the records read back.
\<close>

theorem reconcile_then_by_location:
  assumes run: "process_and_store_weather_data f now ok api lat lon st = (Inr recs, st')"
    and fields: "hourly api = Some hdat" "h_time hdat = Some tss"
      "h_temperature_2m hdat = Some temps" "h_relative_humidity_2m hdat = Some hums"
    and hour: "i < length tss" "f (replace_T (tss ! i)) = Some ts"
      "temps ! i = Some t" "hums ! i = Some h"
    and last: "\<forall>j. i < j \<and> j < length tss \<and> f (replace_T (tss ! j)) = Some ts \<longrightarrow>
      temps ! j = None \<or> hums ! j = None"
    and window: "now' - timedelta_hours hours \<le> ts"
  shows "(\<exists>r\<in>set (fst (get_weather_data_by_location now' lat lon hours st')).
            timestamp r = ts \<and> temperature_2m r = t \<and> relative_humidity_2m r = h)
       \<and> (\<forall>r\<in>set recs. now' - timedelta_hours hours \<le> timestamp r \<longrightarrow>
            r \<in> set (fst (get_weather_data_by_location now' lat lon hours st')))"
proof -
  obtain es err where se: "series_entries f temps hums 0 tss = (es, err)"
    by (cases "series_entries f temps hums 0 tss")
  obtain rows ps where sa: "store_all now lat lon es (session st) = (rows, ps)"
    by (cases "store_all now lat lon es (session st)")
  from run have err: "err = None" and st': "st' = \<lparr>persisted = rows, session = rows\<rparr>"
    and recs: "recs = map (\<lambda>p. rows ! p) ps"
    by (auto simp: process_and_store_eq [OF fields] se sa split: option.splits if_splits)
  have t0: "temps ! (0 + i) = Some t" and h0: "hums ! (0 + i) = Some h"
    using hour(3,4) by simp_all
  have l0: "\<forall>j. i < j \<and> j < length tss \<and> f (replace_T (tss ! j)) = Some ts \<longrightarrow>
      temps ! (0 + j) = None \<or> hums ! (0 + j) = None"
    using last by simp
  from series_entries_last [OF se [unfolded err] hour(1,2) t0 h0 l0]
  obtain es1 es2 where es: "es = es1 @ (ts, t, h) # es2" "ts \<notin> fst ` set es2"
    by blast
  have "holds_value lat lon ts t h rows"
    using holds_value_last [OF es, of lat lon now "session st"] sa by simp
  from holds_value_mem [OF this] obtain r where r: "r \<in> set rows" "filter_by ts lat lon r"
    "temperature_2m r = t" "relative_humidity_2m r = h" by blast
  have one: "\<exists>r\<in>set (fst (get_weather_data_by_location now' lat lon hours st')).
            timestamp r = ts \<and> temperature_2m r = t \<and> relative_humidity_2m r = h"
    using r window by (intro bexI [of _ r]) (simp_all add: set_by_location st' filter_by_def)
  have all: "\<forall>r\<in>set recs. now' - timedelta_hours hours \<le> timestamp r \<longrightarrow>
            r \<in> set (fst (get_weather_data_by_location now' lat lon hours st'))"
  proof (intro ballI impI)
    fix r assume "r \<in> set recs" and w: "now' - timedelta_hours hours \<le> timestamp r"
    then obtain p where p: "p \<in> set ps" "r = rows ! p" using recs by auto
    from refs_valid [of p now lat lon es "session st"] p(1) sa
    have "p < length rows" "latitude (rows ! p) = lat" "longitude (rows ! p) = lon" by simp_all
    then show "r \<in> set (fst (get_weather_data_by_location now' lat lon hours st'))"
      using p(2) w by (simp add: set_by_location st')
  qed
  from one all show ?thesis ..
qed

theorem reconcile_then_by_location_witness:
  "process_and_store_weather_data example_fromisoformat 1704100000000000 True example_series
     47.37 8.55 example_store
     = (Inr [example_row_updated, example_row_new], example_store_after)
   \<and> example_fromisoformat (replace_T ''2024-01-01T00:00'') = Some 1704067200000000
   \<and> 1704100000000000 - timedelta_hours 48 \<le> 1704067200000000
   \<and> (\<exists>r\<in>set (fst (get_weather_data_by_location 1704100000000000 47.37 8.55 48 example_store_after)).
         timestamp r = 1704067200000000 \<and> temperature_2m r = 1.5 \<and> relative_humidity_2m r = 80)"
proof -
  have p: "example_fromisoformat (replace_T ([''2024-01-01T00:00'', ''2024-01-01T01:00''] ! 0))
      = Some 1704067200000000"
    by (simp add: example_fromisoformat_def replace_T_def)
  have w: "1704100000000000 - timedelta_hours 48 \<le> 1704067200000000"
    by (simp add: timedelta_hours_def)
  have "(\<exists>r\<in>set (fst (get_weather_data_by_location 1704100000000000 47.37 8.55 48 example_store_after)).
         timestamp r = 1704067200000000 \<and> temperature_2m r = 1.5 \<and> relative_humidity_2m r = 80)"
    using reconcile_then_by_location [OF example_run example_fields example_arrays example_hour
        example_last w]
    by blast
  with p w example_run show ?thesis by simp
qed

subsection \<open>C5: an update touches temperature and humidity only\<close>

text \<open>
  Claim C5. When the store (with at most one record per triple) holds a record for
  (timestamp, latitude, longitude), a further reconcile whose series carries that
  timestamp leaves exactly one record for the triple: the record that was there, with
  the temperature and humidity of the new series and every other field, the key and
  the creation time among them, as before.
\<close>

theorem second_reconcile_updates_in_place:
  assumes run: "process_and_store_weather_data f now ok api lat lon st = (Inr recs, st')"
    and fields: "hourly api = Some hdat" "h_time hdat = Some tss"
      "h_temperature_2m hdat = Some temps" "h_relative_humidity_2m hdat = Some hums"
    and hour: "i < length tss" "f (replace_T (tss ! i)) = Some ts"
      "temps ! i = Some t" "hums ! i = Some h"
    and last: "\<forall>j. i < j \<and> j < length tss \<and> f (replace_T (tss ! j)) = Some ts \<longrightarrow>
      temps ! j = None \<or> hums ! j = None"
    and inv: "unique_triples (session st)"
    and r0: "r0 \<in> set (session st)" "filter_by ts lat lon r0"
  shows "filter (filter_by ts lat lon) (session st')
           = [r0\<lparr>temperature_2m := t, relative_humidity_2m := h\<rparr>]
       \<and> persisted st' = session st'"
proof -
  obtain es err where se: "series_entries f temps hums 0 tss = (es, err)"
    by (cases "series_entries f temps hums 0 tss")
  obtain rows ps where sa: "store_all now lat lon es (session st) = (rows, ps)"
    by (cases "store_all now lat lon es (session st)")
  from run have err: "err = None" and st': "st' = \<lparr>persisted = rows, session = rows\<rparr>"
    by (auto simp: process_and_store_eq [OF fields] se sa split: option.splits if_splits)
  have t0: "temps ! (0 + i) = Some t" and h0: "hums ! (0 + i) = Some h"
    using hour(3,4) by simp_all
  have l0: "\<forall>j. i < j \<and> j < length tss \<and> f (replace_T (tss ! j)) = Some ts \<longrightarrow>
      temps ! (0 + j) = None \<or> hums ! (0 + j) = None"
    using last by simp
  from series_entries_last [OF se [unfolded err] hour(1,2) t0 h0 l0]
  obtain es1 es2 where es: "es = es1 @ (ts, t, h) # es2" "ts \<notin> fst ` set es2"
    by blast
  have hv: "holds_value lat lon ts t h rows"
    using holds_value_last [OF es, of lat lon now "session st"] sa by simp
  have "filter (filter_by ts lat lon) (session st)
      = [r0\<lparr>temperature_2m := temperature_2m r0, relative_humidity_2m := relative_humidity_2m r0\<rparr>]"
    using filter_unique [OF inv r0] by simp
  from filter_store_all [OF this, of now es] sa obtain a' b' where
    f: "filter (filter_by ts lat lon) rows = [r0\<lparr>temperature_2m := a', relative_humidity_2m := b'\<rparr>]"
    by auto
  from hv obtain p where p: "first_ref (filter_by ts lat lon) rows = Some p"
    and v: "temperature_2m (rows ! p) = t" "relative_humidity_2m (rows ! p) = h"
    by (auto simp: holds_value_def split: option.splits)
  from first_ref_hd_filter [OF p] f
  have "rows ! p = r0\<lparr>temperature_2m := a', relative_humidity_2m := b'\<rparr>" by simp
  with v have "a' = t" "b' = h" by simp_all
  with f show ?thesis by (simp add: st')
qed

theorem second_reconcile_updates_in_place_witness:
  "process_and_store_weather_data example_fromisoformat 1704100000000000 True example_series
     47.37 8.55 example_store
     = (Inr [example_row_updated, example_row_new], example_store_after)
   \<and> unique_triples (session example_store)
   \<and> example_row \<in> set (session example_store)
   \<and> filter_by 1704067200000000 47.37 8.55 example_row
   \<and> filter (filter_by 1704067200000000 47.37 8.55) (session example_store_after)
       = [example_row\<lparr>temperature_2m := 1.5, relative_humidity_2m := 80\<rparr>]
   \<and> persisted example_store_after = session example_store_after"
proof -
  have p: "example_fromisoformat (replace_T ([''2024-01-01T00:00'', ''2024-01-01T01:00''] ! 0))
      = Some 1704067200000000"
    by (simp add: example_fromisoformat_def replace_T_def)
  have inv: "unique_triples (session example_store)"
    by (simp add: unique_triples_def example_store_def)
  have r0: "example_row \<in> set (session example_store)"
    by (simp add: example_store_def)
  have k: "filter_by 1704067200000000 47.37 8.55 example_row"
    by (simp add: filter_by_def example_row_def)
  have "filter (filter_by 1704067200000000 47.37 8.55) (session example_store_after)
       = [example_row\<lparr>temperature_2m := 1.5, relative_humidity_2m := 80\<rparr>]
     \<and> persisted example_store_after = session example_store_after"
    by (rule second_reconcile_updates_in_place [OF example_run example_fields example_arrays
        example_hour example_last inv r0 k])
  with example_run inv r0 k show ?thesis by simp
qed

subsection \<open>C6: what the archive client validates\<close>

text \<open>
  Claim C6 says that a response whose three arrays differ in length is rejected.
  Counterexample to C6: the archive answers with two timestamps and one temperature;
  \<open>fetch_weather_data\<close> returns that response as it is.
\<close>

theorem fetch_misaligned_counterexample:
  "fetch_weather_data (\<lambda>params. Some example_short_series) 19724 47.37 8.55 2
     = Inr example_short_series
   \<and> map_option length (h_time (the (hourly example_short_series))) = Some 2
   \<and> map_option length (h_temperature_2m (the (hourly example_short_series))) = Some 1"
  by (simp add: fetch_weather_data_def example_short_series_def)

text \<open>
  Claim C6, amended. For all coordinates, \<open>fetch_weather_data\<close> either fails or
  returns the archive's response for the range of \<open>days\<close> days ending yesterday, and a
  response it returns holds \<open>hourly\<close> with the three fields \<open>time\<close>,
  \<open>temperature_2m\<close> and \<open>relative_humidity_2m\<close>. A response that lacks \<open>hourly\<close> or
  one of the three fields is rejected with \<open>ValueError\<close>, a failed request with
  \<open>RequestException\<close>. The lengths of the arrays are not compared.
\<close>

theorem fetch_checks_fields:
  "(\<forall>data. fetch_weather_data requests_get today lat lon days = Inr data \<longrightarrow>
      requests_get \<lparr>p_latitude = lat, p_longitude = lon,
                    p_start_date = today - days, p_end_date = today - 1\<rparr> = Some data
      \<and> (\<exists>hourly_data tss temps hums. hourly data = Some hourly_data
            \<and> h_time hourly_data = Some tss \<and> h_temperature_2m hourly_data = Some temps
            \<and> h_relative_humidity_2m hourly_data = Some hums))
   \<and> (\<forall>data. requests_get \<lparr>p_latitude = lat, p_longitude = lon,
                    p_start_date = today - days, p_end_date = today - 1\<rparr> = Some data \<longrightarrow>
        fetch_weather_data requests_get today lat lon days =
          (if hourly data = None
              \<or> h_time (the (hourly data)) = None
              \<or> h_temperature_2m (the (hourly data)) = None
              \<or> h_relative_humidity_2m (the (hourly data)) = None
           then Inl ValueError else Inr data))
   \<and> (requests_get \<lparr>p_latitude = lat, p_longitude = lon,
                    p_start_date = today - days, p_end_date = today - 1\<rparr> = None \<longrightarrow>
        fetch_weather_data requests_get today lat lon days = Inl RequestException)"
proof -
  have d: "today - 1 - (days - 1) = today - days" by simp
  show ?thesis
    by (auto simp: fetch_weather_data_def Let_def d split: option.splits)
qed

theorem fetch_checks_fields_witness:
  "fetch_weather_data (\<lambda>params. if p_latitude params = 47.37 \<and> p_longitude params = 8.55
       \<and> p_start_date params = 19722 \<and> p_end_date params = 19723
       then Some example_series else None) 19724 47.37 8.55 2 = Inr example_series
   \<and> (\<exists>hourly_data tss temps hums. hourly example_series = Some hourly_data
         \<and> h_time hourly_data = Some tss \<and> h_temperature_2m hourly_data = Some temps
         \<and> h_relative_humidity_2m hourly_data = Some hums)"
proof -
  have h: "fetch_weather_data (\<lambda>params. if p_latitude params = 47.37 \<and> p_longitude params = 8.55
       \<and> p_start_date params = 19722 \<and> p_end_date params = 19723
       then Some example_series else None) 19724 47.37 8.55 2 = Inr example_series"
    by (simp add: fetch_weather_data_def example_series_def)
  show ?thesis
    using fetch_checks_fields [of "\<lambda>params. if p_latitude params = 47.37 \<and> p_longitude params = 8.55
       \<and> p_start_date params = 19722 \<and> p_end_date params = 19723
       then Some example_series else None" 19724 "47.37" "8.55" 2] h
    by blast
qed

subsection \<open>C7: the two queries\<close>

text \<open>
  Claim C7. For every store and every number of hours, \<open>get_recent_weather_data\<close>
  returns exactly the records (with their multiplicity) whose timestamp is at least
  \<open>now - hours\<close>, at any location, and \<open>get_weather_data_by_location\<close> exactly those
  that pass the same filter and have the given latitude and longitude; both lists are
  sorted by timestamp, non-decreasing, and both calls return the state they were given.
\<close>

theorem queries_filter_sorted:
  "mset (fst (get_recent_weather_data now hours st))
     = filter_mset (\<lambda>r. now - timedelta_hours hours \<le> timestamp r) (mset (session st))
   \<and> sorted (map timestamp (fst (get_recent_weather_data now hours st)))
   \<and> snd (get_recent_weather_data now hours st) = st
   \<and> mset (fst (get_weather_data_by_location now lat lon hours st))
     = filter_mset (\<lambda>r. latitude r = lat \<and> longitude r = lon \<and> now - timedelta_hours hours \<le> timestamp r)
         (mset (session st))
   \<and> sorted (map timestamp (fst (get_weather_data_by_location now lat lon hours st)))
   \<and> snd (get_weather_data_by_location now lat lon hours st) = st"
  by (simp add: get_recent_weather_data_def get_weather_data_by_location_def)

subsection \<open>C8: validation of the query parameters\<close>

text \<open>
  Claim C8 says that a request with \<open>lat=91\<close> or with \<open>lon=181\<close> is rejected with
  status 400. Counterexample to C8: the coordinates are checked only when both are
  given; \<open>/weather-data?lat=91\<close> and \<open>/weather-data?lon=181\<close> are answered with
  status 200, from all locations.
\<close>

theorem lat_without_lon_counterexample:
  "fst (get_weather_data 1704100000000000 (Some 91) None None example_store) = 200
   \<and> fst (get_weather_data 1704100000000000 None (Some 181) None example_store) = 200"
  by (simp add: get_weather_data_def)

text \<open>
  Claim C8, amended. At \<open>/weather-data\<close>, \<open>/export/excel\<close> and \<open>/export/pdf\<close> a
  request is rejected with status 400 exactly when \<open>hours\<close> (48 when absent) is
  outside 1..168, or both coordinates are given and the latitude is outside -90..90 or
  the longitude outside -180..180. So \<open>hours=0\<close> and \<open>hours=169\<close> are rejected,
  \<open>hours=1\<close> and \<open>hours=168\<close> are not, and \<open>lat=91\<close> or \<open>lon=181\<close> is rejected
  when the other coordinate is given as well.
\<close>

theorem parameter_validation:
  "(fst (get_weather_data now lat lon hours_arg st) = 400 \<longleftrightarrow>
      (case hours_arg of None \<Rightarrow> 48 | Some h \<Rightarrow> h) < 1
      \<or> 168 < (case hours_arg of None \<Rightarrow> 48 | Some h \<Rightarrow> h)
      \<or> (lat \<noteq> None \<and> lon \<noteq> None
            \<and> (the lat < - 90 \<or> 90 < the lat \<or> the lon < - 180 \<or> 180 < the lon)))
   \<and> (fst (export_excel workbook_ok now lat lon hours_arg st) = 400 \<longleftrightarrow>
      (case hours_arg of None \<Rightarrow> 48 | Some h \<Rightarrow> h) < 1
      \<or> 168 < (case hours_arg of None \<Rightarrow> 48 | Some h \<Rightarrow> h)
      \<or> (lat \<noteq> None \<and> lon \<noteq> None
            \<and> (the lat < - 90 \<or> 90 < the lat \<or> the lon < - 180 \<or> 180 < the lon)))
   \<and> (fst (export_pdf env now lat lon hours_arg st) = 400 \<longleftrightarrow>
      (case hours_arg of None \<Rightarrow> 48 | Some h \<Rightarrow> h) < 1
      \<or> 168 < (case hours_arg of None \<Rightarrow> 48 | Some h \<Rightarrow> h)
      \<or> (lat \<noteq> None \<and> lon \<noteq> None
            \<and> (the lat < - 90 \<or> 90 < the lat \<or> the lon < - 180 \<or> 180 < the lon)))"
proof (intro conjI)
  show "fst (get_weather_data now lat lon hours_arg st) = 400 \<longleftrightarrow>
      (case hours_arg of None \<Rightarrow> 48 | Some h \<Rightarrow> h) < 1
      \<or> 168 < (case hours_arg of None \<Rightarrow> 48 | Some h \<Rightarrow> h)
      \<or> (lat \<noteq> None \<and> lon \<noteq> None
            \<and> (the lat < - 90 \<or> 90 < the lat \<or> the lon < - 180 \<or> 180 < the lon))"
    by (cases hours_arg; cases lat; cases lon)
       (auto simp: get_weather_data_def Let_def)
  show "fst (export_excel workbook_ok now lat lon hours_arg st) = 400 \<longleftrightarrow>
      (case hours_arg of None \<Rightarrow> 48 | Some h \<Rightarrow> h) < 1
      \<or> 168 < (case hours_arg of None \<Rightarrow> 48 | Some h \<Rightarrow> h)
      \<or> (lat \<noteq> None \<and> lon \<noteq> None
            \<and> (the lat < - 90 \<or> 90 < the lat \<or> the lon < - 180 \<or> 180 < the lon))"
    by (cases hours_arg; cases lat; cases lon)
       (auto simp: export_excel_def Let_def)
  show "fst (export_pdf env now lat lon hours_arg st) = 400 \<longleftrightarrow>
      (case hours_arg of None \<Rightarrow> 48 | Some h \<Rightarrow> h) < 1
      \<or> 168 < (case hours_arg of None \<Rightarrow> 48 | Some h \<Rightarrow> h)
      \<or> (lat \<noteq> None \<and> lon \<noteq> None
            \<and> (the lat < - 90 \<or> 90 < the lat \<or> the lon < - 180 \<or> 180 < the lon))"
    by (cases hours_arg; cases lat; cases lon)
       (auto simp: export_pdf_def Let_def)
qed

theorem parameter_validation_witness:
  "fst (get_weather_data 1704100000000000 (Some 47.37) (Some 8.55) (Some 0) example_store) = 400
   \<and> fst (get_weather_data 1704100000000000 (Some 47.37) (Some 8.55) (Some 169) example_store) = 400
   \<and> fst (get_weather_data 1704100000000000 (Some 91) (Some 8.55) None example_store) = 400
   \<and> fst (get_weather_data 1704100000000000 (Some 47.37) (Some 181) None example_store) = 400
   \<and> fst (get_weather_data 1704100000000000 (Some 47.37) (Some 8.55) (Some 1) example_store) \<noteq> 400
   \<and> fst (get_weather_data 1704100000000000 (Some 47.37) (Some 8.55) (Some 168) example_store) \<noteq> 400
   \<and> fst (export_excel True 1704100000000000 (Some 91) (Some 8.55) None example_store) = 400
   \<and> fst (export_excel True 1704100000000000 (Some 47.37) (Some 8.55) (Some 168) example_store) \<noteq> 400"
proof -
  let ?now = "1704100000000000 :: int"
  note v = parameter_validation [of ?now _ _ _ example_store True]
  show ?thesis
    using v [of "Some 47.37" "Some 8.55" "Some 0"] v [of "Some 47.37" "Some 8.55" "Some 169"]
      v [of "Some 91" "Some 8.55" None] v [of "Some 47.37" "Some 181" None]
      v [of "Some 47.37" "Some 8.55" "Some 1"] v [of "Some 47.37" "Some 8.55" "Some 168"]
    by simp
qed

subsection \<open>C9: the PDF export and its fallback\<close>

text \<open>
  Claim C9 says that the PDF export answers 500 only if both renderers fail.
  Counterexample to C9: a request with valid parameters and a matching record, both
  renderers in working order, and \<open>generate_weather_chart\<close> raising: the chart is drawn
  before either renderer is tried, and the handler's outer \<open>except\<close> answers 500.
\<close>

theorem chart_failure_counterexample:
  "export_pdf (example_env\<lparr>chart_ok := False\<rparr>) 1704100000000000 (Some 47.37) (Some 8.55) (Some 48)
     example_store = (500, Pdf_export_failed)
   \<and> weasyprint_available (example_env\<lparr>chart_ok := False\<rparr>)
   \<and> write_pdf_ok (example_env\<lparr>chart_ok := False\<rparr>)
   \<and> reportlab_ok (example_env\<lparr>chart_ok := False\<rparr>)"
  by (simp add: export_pdf_def get_weather_data_by_location_def timedelta_hours_def
      example_defs example_env_def)

text \<open>
  Claim C9, amended. For a request to \<open>/export/pdf\<close> with valid parameters and a
  non-empty record set (the answer is neither 400 nor 404): once the chart is drawn and
  the temporary file is there, a failure of the primary renderer alone (WeasyPrint
  missing, or \<open>write_pdf\<close> raising) is recovered by the ReportLab fallback, and the
  answer "both failed" is given exactly when both renderers fail. The status is 500
  exactly when both renderers fail or a step outside them raises (drawing the chart,
  creating the temporary file, sending the file).
\<close>

theorem pdf_fallback:
  assumes "fst (export_pdf env now lat lon hours_arg st) \<noteq> 400"
    and "fst (export_pdf env now lat lon hours_arg st) \<noteq> 404"
  shows "(export_pdf env now lat lon hours_arg st = (500, Both_renderers_failed) \<longleftrightarrow>
            chart_ok env \<and> tempfile_ok env
            \<and> \<not> (weasyprint_available env \<and> write_pdf_ok env) \<and> \<not> reportlab_ok env)
       \<and> (fst (export_pdf env now lat lon hours_arg st) = 500 \<longleftrightarrow>
            \<not> chart_ok env \<or> \<not> tempfile_ok env \<or> \<not> send_file_ok env
            \<or> (\<not> (weasyprint_available env \<and> write_pdf_ok env) \<and> \<not> reportlab_ok env))
       \<and> (chart_ok env \<and> tempfile_ok env \<and> send_file_ok env
            \<and> \<not> (weasyprint_available env \<and> write_pdf_ok env) \<and> reportlab_ok env \<longrightarrow>
            export_pdf env now lat lon hours_arg st = (200, Pdf_file ReportLab))
       \<and> (chart_ok env \<and> tempfile_ok env \<and> send_file_ok env
            \<and> weasyprint_available env \<and> write_pdf_ok env \<longrightarrow>
            export_pdf env now lat lon hours_arg st = (200, Pdf_file WeasyPrint))"
  using assms
  by (cases hours_arg; cases lat; cases lon)
     (auto simp: export_pdf_def Let_def split: if_splits)

theorem pdf_fallback_witness:
  "fst (export_pdf (example_env\<lparr>weasyprint_available := False\<rparr>) 1704100000000000
        (Some 47.37) (Some 8.55) (Some 48) example_store) \<noteq> 400
   \<and> fst (export_pdf (example_env\<lparr>weasyprint_available := False\<rparr>) 1704100000000000
        (Some 47.37) (Some 8.55) (Some 48) example_store) \<noteq> 404
   \<and> export_pdf (example_env\<lparr>weasyprint_available := False\<rparr>) 1704100000000000
        (Some 47.37) (Some 8.55) (Some 48) example_store = (200, Pdf_file ReportLab)"
proof -
  have h: "export_pdf (example_env\<lparr>weasyprint_available := False\<rparr>) 1704100000000000
        (Some 47.37) (Some 8.55) (Some 48) example_store = (200, Pdf_file ReportLab)"
    by (simp add: export_pdf_def get_weather_data_by_location_def timedelta_hours_def
      example_defs example_env_def)
  have h1: "fst (export_pdf (example_env\<lparr>weasyprint_available := False\<rparr>) 1704100000000000
        (Some 47.37) (Some 8.55) (Some 48) example_store) \<noteq> 400"
    and h2: "fst (export_pdf (example_env\<lparr>weasyprint_available := False\<rparr>) 1704100000000000
        (Some 47.37) (Some 8.55) (Some 48) example_store) \<noteq> 404"
    using h by simp_all
  show ?thesis
    using pdf_fallback [OF h1 h2] h1 h2 by (simp add: example_env_def)
qed

subsection \<open>C10: indexing the temperature and humidity arrays\<close>

text \<open>
  Claim C10 says that every series whose time array is longer than the temperature or
  the humidity array makes the call fail with an out-of-bounds error. Counterexample to
  C10: one hour, its temperature \<open>null\<close>, and an empty humidity array. The hour is
  skipped before the humidity is read, and the call returns the empty list.
\<close>

theorem reconcile_short_humidity_counterexample:
  "h_time (the (hourly example_null_series)) = Some [''2024-01-01T00:00'']
   \<and> h_temperature_2m (the (hourly example_null_series)) = Some [None]
   \<and> h_relative_humidity_2m (the (hourly example_null_series)) = Some []
   \<and> process_and_store_weather_data example_fromisoformat 1704100000000000 True example_null_series
       47.37 8.55 example_store = (Inr [], example_store)"
  by (simp add: process_and_store_weather_data_def replace_T_def example_defs example_null_series_def)

text \<open>
  Claim C10, amended. For a series with all three fields: when the temperature and the
  humidity array are at least as long as the time array, the call never fails with
  \<open>IndexError\<close>. When every timestamp parses, the call fails with \<open>IndexError\<close>
  (raised by the loop, outside the \<open>try\<close>, so not as the storage error) exactly when
  some index of the time array is beyond the temperature array, or is beyond the
  humidity array while the temperature at that index is not \<open>null\<close>.
\<close>

theorem reconcile_index_error:
  assumes "hourly api = Some hdat" and "h_time hdat = Some tss"
    and "h_temperature_2m hdat = Some temps" and "h_relative_humidity_2m hdat = Some hums"
  shows "(length tss \<le> length temps \<and> length tss \<le> length hums \<longrightarrow>
            fst (process_and_store_weather_data f now ok api lat lon st) \<noteq> Inl IndexError)
       \<and> ((\<forall>s\<in>set tss. f (replace_T s) \<noteq> None) \<longrightarrow>
            (fst (process_and_store_weather_data f now ok api lat lon st) = Inl IndexError \<longleftrightarrow>
              (\<exists>i<length tss. length temps \<le> i \<or> (temps ! i \<noteq> None \<and> length hums \<le> i))))"
proof -
  obtain es err where se: "series_entries f temps hums 0 tss = (es, err)"
    by (cases "series_entries f temps hums 0 tss")
  obtain rows ps where sa: "store_all now lat lon es (session st) = (rows, ps)"
    by (cases "store_all now lat lon es (session st)")
  have res: "fst (process_and_store_weather_data f now ok api lat lon st) = Inl IndexError
      \<longleftrightarrow> err = Some IndexError"
    by (auto simp: process_and_store_eq [OF assms] se sa split: option.splits if_splits)
  have a: "err \<noteq> Some IndexError" if "length tss \<le> length temps" "length tss \<le> length hums"
    using series_entries_no_IndexError [of 0 tss temps hums f] that se by simp
  have b: "err = Some IndexError \<longleftrightarrow>
      (\<exists>i<length tss. length temps \<le> i \<or> (temps ! i \<noteq> None \<and> length hums \<le> i))"
    if "\<forall>s\<in>set tss. f (replace_T s) \<noteq> None"
    using series_entries_IndexError_iff [OF that, of temps hums 0] se by simp
  show ?thesis
    unfolding res using a b by blast
qed

theorem reconcile_index_error_witness:
  "hourly example_short_series = Some \<lparr>
     h_time = Some [''2024-01-01T00:00'', ''2024-01-01T01:00''],
     h_temperature_2m = Some [Some 1.5],
     h_relative_humidity_2m = Some [Some 80, Some 81]\<rparr>
   \<and> example_fromisoformat (replace_T ''2024-01-01T00:00'') \<noteq> None
   \<and> example_fromisoformat (replace_T ''2024-01-01T01:00'') \<noteq> None
   \<and> fst (process_and_store_weather_data example_fromisoformat 1704100000000000 True
        example_short_series 47.37 8.55 empty_store) = Inl IndexError"
proof -
  have h1: "hourly example_short_series = Some \<lparr>
     h_time = Some [''2024-01-01T00:00'', ''2024-01-01T01:00''],
     h_temperature_2m = Some [Some 1.5],
     h_relative_humidity_2m = Some [Some 80, Some 81]\<rparr>"
    by (simp add: example_short_series_def)
  have h2: "\<forall>s\<in>set [''2024-01-01T00:00'', ''2024-01-01T01:00'']. example_fromisoformat (replace_T s) \<noteq> None"
    by (simp add: example_fromisoformat_def replace_T_def)
  have h3: "\<exists>i<length [''2024-01-01T00:00'', ''2024-01-01T01:00''].
      length [Some (1.5::real)] \<le> i \<or> ([Some (1.5::real)] ! i \<noteq> None \<and> length [Some (80::real), Some 81] \<le> i)"
    by (intro exI [of _ 1]) simp
  show ?thesis
    using reconcile_index_error [OF h1, of "[''2024-01-01T00:00'', ''2024-01-01T01:00'']"
        "[Some 1.5]" "[Some 80, Some 81]" example_fromisoformat 1704100000000000 True "47.37" "8.55" empty_store]
      h1 h2 h3
    by simp
qed

end
